theory Spec2Isabelle
  imports Main "HOL-Library.Finite_Map" "HOL-Library.Monad_Syntax" "HOL-Library.Sublist"
begin

section \<open>JavaScript values\<close>

text \<open>
  The integration-definition module works on plain JavaScript objects whose shape is
  only checked at run time, by the schema library. Values are therefore modelled
  dynamically. An object is a finite map from property names to values; the order in
  which properties were inserted is not recorded. A property can be present and hold
  \<open>undefined\<close>, which differs from an absent property only for the \<open>in\<close> operator.
  Numbers stand for themselves only as "some number": no arithmetic is done on them.
\<close>

datatype jv =
    JUndefined
  | JNull
  | JBool bool
  | JNum int
  | JStr string
  | JArr "jv list"
  | JObj "(string, jv) fmap"

text \<open>\<open>obj[key]\<close> on the property map of an object.\<close>

definition field :: "(string, jv) fmap \<Rightarrow> string \<Rightarrow> jv" where
  "field m k = (case fmlookup m k of None \<Rightarrow> JUndefined | Some v \<Rightarrow> v)"

text \<open>Decimal rendering of an index, as in the property names of an array.\<close>

function string_of_nat :: "nat \<Rightarrow> string" where
  "string_of_nat n =
     (if n < 10 then [''0123456789'' ! n]
      else string_of_nat (n div 10) @ [''0123456789'' ! (n mod 10)])"
  by pat_completeness auto
termination
  by (relation "measure (\<lambda>n. n)") auto

text \<open>
  The own enumerable string-keyed properties of a value: what \<open>{...x}\<close> copies and what
  \<open>Object.keys(x)\<close> lists. An array has its indices, a string its characters, the other
  primitives nothing.
\<close>

definition own_props :: "jv \<Rightarrow> (string, jv) fmap" where
  "own_props x = (case x of
       JObj m \<Rightarrow> m
     | JArr xs \<Rightarrow> fmap_of_list (zip (map string_of_nat [0..<length xs]) xs)
     | JStr s \<Rightarrow> fmap_of_list (zip (map string_of_nat [0..<length s]) (map (\<lambda>c. JStr [c]) s))
     | _ \<Rightarrow> fmempty)"

text \<open>
  Reading a named property \<open>x.k\<close>: a \<open>TypeError\<close> (here \<open>None\<close>) on \<open>undefined\<close> and
  \<open>null\<close>. The names read in this module (\<open>input\<close>, \<open>output\<close>, \<open>messages\<close>) are
  not built-in properties of arrays or strings.
\<close>

definition read_prop :: "jv \<Rightarrow> string \<Rightarrow> jv option" where
  "read_prop x k = (if x = JUndefined \<or> x = JNull then None else Some (field (own_props x) k))"

text \<open>The condition of \<open>x ? a : b\<close>.\<close>

definition truthy :: "jv \<Rightarrow> bool" where
  "truthy x = (case x of
       JUndefined \<Rightarrow> False
     | JNull \<Rightarrow> False
     | JBool b \<Rightarrow> b
     | JNum n \<Rightarrow> n \<noteq> 0
     | JStr s \<Rightarrow> s \<noteq> []
     | _ \<Rightarrow> True)"

text \<open>
  \<open>mapValues\<close> of radash: \<open>Object.keys(obj).reduce((acc, key) => { acc[key] =
  mapFunc(obj[key]); return acc }, {})\<close>. \<open>Object.keys\<close> raises a \<open>TypeError\<close> on
  \<open>undefined\<close> and \<open>null\<close>; a callback that raises ends the whole call. The only
  exception raised while a definition is formatted is \<open>TypeError\<close>, so a raise is the
  value \<open>None\<close>.
\<close>

definition mapValues :: "jv \<Rightarrow> (jv \<Rightarrow> jv option) \<Rightarrow> jv option" where
  "mapValues obj mapFunc =
     (if obj = JUndefined \<or> obj = JNull then None
      else if fmpred (\<lambda>k x. mapFunc x \<noteq> None) (own_props obj)
      then Some (JObj (fmmap (\<lambda>x. the (mapFunc x)) (own_props obj)))
      else None)"

section \<open>The schema library\<close>

text \<open>
  The schemas of the module are built from a handful of zod combinators. Each schema is
  a term of the datatype below, and \<open>parse\<close> gives the combinators their meaning.
  A refinement carries the predicate and the message of \<open>.refine(check, { message })\<close>.
\<close>

datatype unknownKeys = Strip | Passthrough

datatype zod =
    ZString
  | ZBoolean
  | ZLiteral string
  | ZEnum "string list"
  | ZUnion "zod list"
  | ZArray zod
  | ZRecord zod
  | ZObject "(string \<times> zod) list" unknownKeys
  | ZOptional zod
  | ZRefine zod "jv \<Rightarrow> bool" string

text \<open>
  A validation issue has a code and the path of the value it is about. The message of
  a \<open>custom\<close> issue is the one the refinement was given; the library's own wording of
  the other messages is not modelled.
\<close>

datatype seg = Key string | Idx nat

datatype issue_code =
    invalid_type
  | invalid_literal
  | invalid_enum_value
  | invalid_union
  | custom string

datatype issue = Issue (issue_code: issue_code) (issue_path: "seg list")

text \<open>
  The outcome of parsing one value: the issues raised below it and, unless parsing was
  aborted, the parsed value. No issue and a value is zod's status \<open>valid\<close>; issues and a
  value is \<open>dirty\<close> (a refinement failed on a value of the right type); no value is
  \<open>aborted\<close>.
\<close>

type_synonym presult = "issue set \<times> jv option"

definition is_valid :: "presult \<Rightarrow> bool" where
  "is_valid r = (fst r = {} \<and> snd r \<noteq> None)"

definition is_dirty :: "presult \<Rightarrow> bool" where
  "is_dirty r = (fst r \<noteq> {} \<and> snd r \<noteq> None)"

text \<open>An object or a record keeps an entry whose parsed value is \<open>undefined\<close> only
  where the library sets \<open>alwaysSet\<close>, which it does for the declared keys of an object
  that are present in the input.\<close>

definition defined_entries :: "(string, jv) fmap \<Rightarrow> (string, jv) fmap" where
  "defined_entries m = fmfilter (\<lambda>k. fmlookup m k \<noteq> Some JUndefined) m"

text \<open>The object that is built from the parsed entries never gets an entry named
  \<open>__proto__\<close>: the library skips that key when it merges the entries. The entry is
  parsed like the others, so its issues count.\<close>

definition merged :: "(string, jv) fmap \<Rightarrow> (string, jv) fmap" where
  "merged m = fmdrop ''__proto__'' m"

fun parse :: "zod \<Rightarrow> seg list \<Rightarrow> jv \<Rightarrow> presult" where
  "parse ZString p v =
     (case v of JStr s \<Rightarrow> ({}, Some v) | _ \<Rightarrow> ({Issue invalid_type p}, None))"
| "parse ZBoolean p v =
     (case v of JBool b \<Rightarrow> ({}, Some v) | _ \<Rightarrow> ({Issue invalid_type p}, None))"
| "parse (ZLiteral s) p v =
     (if v = JStr s then ({}, Some v) else ({Issue invalid_literal p}, None))"
| "parse (ZEnum ss) p v =
     (case v of
        JStr s \<Rightarrow> if s \<in> set ss then ({}, Some v) else ({Issue invalid_enum_value p}, None)
      | _ \<Rightarrow> ({Issue invalid_type p}, None))"
| "parse (ZUnion zs) p v =
     (let rs = map (\<lambda>z. parse z p v) zs in
      case find is_valid rs of
        Some r \<Rightarrow> r
      | None \<Rightarrow> (case find is_dirty rs of
                   Some r \<Rightarrow> r
                 | None \<Rightarrow> ({Issue invalid_union p}, None)))"
| "parse (ZArray z) p v =
     (case v of
        JArr xs \<Rightarrow>
          (let rs = map (\<lambda>(i, x). parse z (p @ [Idx i]) x) (enumerate 0 xs) in
           (\<Union>(fst ` set rs),
            if list_all (\<lambda>r. snd r \<noteq> None) rs
            then Some (JArr (map (\<lambda>r. the (snd r)) rs)) else None))
      | _ \<Rightarrow> ({Issue invalid_type p}, None))"
| "parse (ZRecord z) p v =
     (case v of
        JObj m \<Rightarrow>
          (let rs = fmmap_keys (\<lambda>k x. parse z (p @ [Key k]) x) m in
           (\<Union>(fst ` fmran' rs),
            if fmpred (\<lambda>k r. snd r \<noteq> None) rs
            then Some (JObj (merged (defined_entries (fmmap (\<lambda>r. the (snd r)) rs)))) else None))
      | _ \<Rightarrow> ({Issue invalid_type p}, None))"
| "parse (ZObject shape uk) p v =
     (case v of
        JObj m \<Rightarrow>
          (let rs = map (\<lambda>(k, z). (k, parse z (p @ [Key k]) (field m k))) shape;
               extra = (case uk of
                          Strip \<Rightarrow> fmempty
                        | Passthrough \<Rightarrow> defined_entries (fmdrop_set (fst ` set shape) m)) in
           (\<Union>((\<lambda>(k, r). fst r) ` set rs),
            if list_all (\<lambda>(k, r). snd r \<noteq> None) rs
            then Some (JObj (merged (fmap_of_list
                   (filter (\<lambda>(k, x). x \<noteq> JUndefined \<or> k |\<in>| fmdom m)
                      (map (\<lambda>(k, r). (k, the (snd r))) rs)) ++\<^sub>f extra)))
            else None))
      | _ \<Rightarrow> ({Issue invalid_type p}, None))"
| "parse (ZOptional z) p v =
     (if v = JUndefined then ({}, Some JUndefined) else parse z p v)"
| "parse (ZRefine z chk msg) p v =
     (case parse z p v of
        (is, None) \<Rightarrow> (is, None)
      | (is, Some r) \<Rightarrow>
          if chk r then (is, Some r) else (insert (Issue (custom msg) p) is, Some r))"

text \<open>
  Exceptions of the constructor: the \<open>TypeError\<close> of the language and the \<open>ZodError\<close>
  of \<open>schema.parse\<close>, which carries the issues.
\<close>

datatype error = TypeError | ZodError "issue set"

text \<open>\<open>schema.parse(data)\<close>: the parsed value when the status is valid, a \<open>ZodError\<close>
  otherwise.\<close>

definition parse_schema :: "zod \<Rightarrow> jv \<Rightarrow> error + jv" where
  "parse_schema z data =
     (case parse z [] data of
        (is, Some r) \<Rightarrow> if is = {} then Inr r else Inl (ZodError is)
      | (is, None) \<Rightarrow> Inl (ZodError is))"

text \<open>The combinators under the names the source uses.\<close>

abbreviation z_string :: zod where "z_string \<equiv> ZString"
abbreviation z_boolean :: zod where "z_boolean \<equiv> ZBoolean"
abbreviation z_literal :: "string \<Rightarrow> zod" where "z_literal \<equiv> ZLiteral"
abbreviation z_enum :: "string list \<Rightarrow> zod" where "z_enum \<equiv> ZEnum"
abbreviation z_union :: "zod list \<Rightarrow> zod" where "z_union \<equiv> ZUnion"
abbreviation z_array :: "zod \<Rightarrow> zod" where "z_array \<equiv> ZArray"
abbreviation z_record :: "zod \<Rightarrow> zod" where "z_record \<equiv> ZRecord"
abbreviation z_object :: "(string \<times> zod) list \<Rightarrow> zod" where "z_object shape \<equiv> ZObject shape Strip"
abbreviation optional :: "zod \<Rightarrow> zod" where "optional \<equiv> ZOptional"

fun passthrough :: "zod \<Rightarrow> zod" where
  "passthrough (ZObject shape uk) = ZObject shape Passthrough"
| "passthrough z = z"

fun partial :: "zod \<Rightarrow> zod" where
  "partial (ZObject shape uk) = ZObject (map (\<lambda>(k, z). (k, ZOptional z)) shape) uk"
| "partial z = z"

section \<open>The manifest schema\<close>

text \<open>\<open>Object.keys(obj).length\<close>.\<close>

definition keys_length :: "jv \<Rightarrow> nat" where
  "keys_length obj = fcard (fmdom (own_props obj))"

definition nonEmptyDict_min :: "zod \<Rightarrow> nat \<Rightarrow> zod" where
  "nonEmptyDict_min v n =
     ZRefine (z_record v) (\<lambda>obj. n \<le> keys_length obj)
       (''At least '' @ string_of_nat n @ '' item(s) must be defined'')"

definition schemaSchema :: zod where
  "schemaSchema = passthrough (z_object [])"

definition configurationDefinitionSchema :: zod where
  "configurationDefinitionSchema = z_object [(''schema'', schemaSchema)]"

definition eventDefinitionSchema :: zod where
  "eventDefinitionSchema = z_object
     [(''title'', optional z_string),
      (''description'', optional z_string),
      (''schema'', schemaSchema)]"

definition actionDefinitionSchema :: zod where
  "actionDefinitionSchema = z_object
     [(''title'', optional z_string),
      (''description'', optional z_string),
      (''input'', z_object [(''schema'', schemaSchema)]),
      (''output'', z_object [(''schema'', schemaSchema)])]"

definition messageDefinitionSchema :: zod where
  "messageDefinitionSchema = z_object [(''schema'', schemaSchema)]"

definition tagDefinitionSchema :: zod where
  "tagDefinitionSchema = z_object
     [(''title'', optional z_string),
      (''description'', optional z_string)]"

definition channelDefinitionSchema :: zod where
  "channelDefinitionSchema = z_object
     [(''title'', optional z_string),
      (''description'', optional z_string),
      (''messages'', nonEmptyDict_min messageDefinitionSchema 1),
      (''message'', optional (partial (z_object
         [(''tags'', z_record tagDefinitionSchema)]))),
      (''conversation'', optional (partial (z_object
         [(''tags'', z_record tagDefinitionSchema),
          (''creation'', z_object
             [(''enabled'', z_boolean),
              (''requiredTags'', z_array z_string)])])))]"

definition stateDefinitionSchema :: zod where
  "stateDefinitionSchema = z_object
     [(''type'', z_union [z_literal ''integration'', z_literal ''conversation'', z_literal ''user'']),
      (''schema'', schemaSchema)]"

definition PUBLIC_VERSION :: string where
  "PUBLIC_VERSION = ''0.2.0''"

definition PRIVATE_VERSION :: string where
  "PRIVATE_VERSION = ''0.0.1''"

definition integrationDefinitionShape :: "(string \<times> zod) list" where
  "integrationDefinitionShape =
     [(''name'', z_string),
      (''version'', z_enum [PRIVATE_VERSION, PUBLIC_VERSION]),
      (''title'', optional z_string),
      (''description'', optional z_string),
      (''icon'', optional z_string),
      (''readme'', optional z_string),
      (''configuration'', optional configurationDefinitionSchema),
      (''events'', optional (z_record eventDefinitionSchema)),
      (''actions'', optional (z_record actionDefinitionSchema)),
      (''channels'', optional (z_record channelDefinitionSchema)),
      (''states'', optional (z_record stateDefinitionSchema)),
      (''user'', optional (partial (z_object
         [(''tags'', z_record tagDefinitionSchema),
          (''creation'', z_object
             [(''enabled'', z_boolean),
              (''requiredTags'', z_array z_string)])]))),
      (''secrets'', optional (z_array z_string))]"

definition integrationDefinitionSchema :: zod where
  "integrationDefinitionSchema = z_object integrationDefinitionShape"

section \<open>Formatting and constructing an integration definition\<close>

text \<open>
  \<open>schemaDefinitionToJsonSchema\<close> is imported from \<open>./schema\<close>, which is not part of
  the available sources. It is a parameter \<open>toJsonSchema\<close> of everything below: a total
  function from the section object it is given to the JSON Schema it returns.

  Each object literal \<open>{ ...x, schema: toJsonSchema(x) }\<close> copies the own properties of
  \<open>x\<close> and then sets \<open>schema\<close>.
\<close>

definition formatIntegrationDefinition ::
  "(jv \<Rightarrow> jv) \<Rightarrow> (string, jv) fmap \<Rightarrow> jv option" where
  "formatIntegrationDefinition toJsonSchema definition =
     do {
       let configuration =
         (if truthy (field definition ''configuration'')
          then JObj (fmupd ''schema'' (toJsonSchema (field definition ''configuration''))
                 (own_props (field definition ''configuration'')))
          else JUndefined);
       events \<leftarrow>
         (if truthy (field definition ''events'')
          then mapValues (field definition ''events'') (\<lambda>event.
                 Some (JObj (fmupd ''schema'' (toJsonSchema event) (own_props event))))
          else Some JUndefined);
       actions \<leftarrow>
         (if truthy (field definition ''actions'')
          then mapValues (field definition ''actions'') (\<lambda>action.
                 do {
                   input \<leftarrow> read_prop action ''input'';
                   output \<leftarrow> read_prop action ''output'';
                   Some (JObj
                     (fmupd ''output'' (JObj (fmupd ''schema'' (toJsonSchema output) (own_props output)))
                     (fmupd ''input'' (JObj (fmupd ''schema'' (toJsonSchema input) (own_props input)))
                     (own_props action))))
                 })
          else Some JUndefined);
       channels \<leftarrow>
         (if truthy (field definition ''channels'')
          then mapValues (field definition ''channels'') (\<lambda>channel.
                 do {
                   messages \<leftarrow> read_prop channel ''messages'';
                   messages' \<leftarrow> mapValues messages (\<lambda>message.
                     Some (JObj (fmupd ''schema'' (toJsonSchema message) (own_props message))));
                   Some (JObj (fmupd ''messages'' messages' (own_props channel)))
                 })
          else Some JUndefined);
       states \<leftarrow>
         (if truthy (field definition ''states'')
          then mapValues (field definition ''states'') (\<lambda>state.
                 Some (JObj (fmupd ''schema'' (toJsonSchema state) (own_props state))))
          else Some JUndefined);
       Some (JObj
         (fmupd ''user'' (field definition ''user'')
         (fmupd ''states'' states
         (fmupd ''channels'' channels
         (fmupd ''actions'' actions
         (fmupd ''events'' events
         (fmupd ''configuration'' configuration definition)))))))
     }"

text \<open>The class: thirteen read-only fields, set once by the constructor.\<close>

record integrationDefinition =
  name :: jv
  version :: jv
  icon :: jv
  readme :: jv
  title :: jv
  description :: jv
  configuration :: jv
  events :: jv
  actions :: jv
  channels :: jv
  states :: jv
  user :: jv
  secrets :: jv

definition IntegrationDefinition ::
  "(jv \<Rightarrow> jv) \<Rightarrow> (string, jv) fmap \<Rightarrow> error + integrationDefinition" where
  "IntegrationDefinition toJsonSchema props =
     (case formatIntegrationDefinition toJsonSchema props of
        None \<Rightarrow> Inl TypeError
      | Some integrationDefinitionInput \<Rightarrow>
          (case parse_schema integrationDefinitionSchema integrationDefinitionInput of
             Inl e \<Rightarrow> Inl e
           | Inr parsed \<Rightarrow>
               Inr \<lparr> name = field (own_props parsed) ''name'',
                     version = field (own_props parsed) ''version'',
                     icon = field (own_props parsed) ''icon'',
                     readme = field (own_props parsed) ''readme'',
                     title = field (own_props parsed) ''title'',
                     description = field (own_props parsed) ''description'',
                     configuration = field (own_props parsed) ''configuration'',
                     events = field (own_props parsed) ''events'',
                     actions = field (own_props parsed) ''actions'',
                     channels = field (own_props parsed) ''channels'',
                     states = field (own_props parsed) ''states'',
                     user = field (own_props parsed) ''user'',
                     secrets = field (own_props parsed) ''secrets'' \<rparr>))"

section \<open>The formatter, section by section\<close>

text \<open>
  The expressions of \<open>formatIntegrationDefinition\<close>, one name each, so that a section
  can be reasoned about on its own. Lemma \<open>format_alt\<close> below shows that the formatter
  is exactly their composition.
\<close>

definition translated :: "(jv \<Rightarrow> jv) \<Rightarrow> jv \<Rightarrow> jv" where
  "translated toJsonSchema x = JObj (fmupd ''schema'' (toJsonSchema x) (own_props x))"

definition format_configuration :: "(jv \<Rightarrow> jv) \<Rightarrow> jv \<Rightarrow> jv" where
  "format_configuration toJsonSchema c =
     (if truthy c then translated toJsonSchema c else JUndefined)"

definition format_events :: "(jv \<Rightarrow> jv) \<Rightarrow> jv \<Rightarrow> jv option" where
  "format_events toJsonSchema e =
     (if truthy e then mapValues e (\<lambda>event. Some (translated toJsonSchema event))
      else Some JUndefined)"

definition format_action :: "(jv \<Rightarrow> jv) \<Rightarrow> jv \<Rightarrow> jv option" where
  "format_action toJsonSchema action =
     do {
       input \<leftarrow> read_prop action ''input'';
       output \<leftarrow> read_prop action ''output'';
       Some (JObj
         (fmupd ''output'' (translated toJsonSchema output)
         (fmupd ''input'' (translated toJsonSchema input)
         (own_props action))))
     }"

definition format_actions :: "(jv \<Rightarrow> jv) \<Rightarrow> jv \<Rightarrow> jv option" where
  "format_actions toJsonSchema a =
     (if truthy a then mapValues a (format_action toJsonSchema) else Some JUndefined)"

definition format_channel :: "(jv \<Rightarrow> jv) \<Rightarrow> jv \<Rightarrow> jv option" where
  "format_channel toJsonSchema channel =
     do {
       messages \<leftarrow> read_prop channel ''messages'';
       messages' \<leftarrow> mapValues messages (\<lambda>message. Some (translated toJsonSchema message));
       Some (JObj (fmupd ''messages'' messages' (own_props channel)))
     }"

definition format_channels :: "(jv \<Rightarrow> jv) \<Rightarrow> jv \<Rightarrow> jv option" where
  "format_channels toJsonSchema c =
     (if truthy c then mapValues c (format_channel toJsonSchema) else Some JUndefined)"


section \<open>Where a path leads\<close>


section \<open>What validation keeps of a value\<close>








text \<open>The values on which reading a property raises a \<open>TypeError\<close>.\<close>

definition nullish :: "jv \<Rightarrow> bool" where
  "nullish x = (x = JUndefined \<or> x = JNull)"

section \<open>Semantic versions\<close>

text \<open>
  The version-bump command computes the next version with \<open>semver.inc\<close>, a function
  of the semver package. Its behaviour on the three release types the command passes
  is modelled here: the version string is parsed as the package parses it (at most 256
  characters, surrounding white space trimmed, an optional leading \<open>v\<close>, three numeric
  identifiers without leading zeros, an optional prerelease after \<open>-\<close> and optional
  build metadata after \<open>+\<close>, no component above the largest safe integer), and
  \<open>inc\<close> returns \<open>null\<close>, here \<open>None\<close>, where parsing fails.
\<close>

datatype VersionJump = major | minor | patch | none

definition is_digit :: "char \<Rightarrow> bool" where
  "is_digit c = (c \<in> set ''0123456789'')"

definition is_identifier_char :: "char \<Rightarrow> bool" where
  "is_identifier_char c =
     (c \<in> set ''0123456789abcdefghijklmnopqrstuvwxyzABCDEFGHIJKLMNOPQRSTUVWXYZ-'')"

text \<open>The white space \<open>String.prototype.trim\<close> removes, among the characters a
  \<open>string\<close> can hold here (code units below 256): tab, line feed, vertical tab, form
  feed, carriage return, space and the no-break space.\<close>

definition is_space :: "char \<Rightarrow> bool" where
  "is_space c =
     (c \<in> set [CHR '' '', CHR 0x09, CHR 0x0A, CHR 0x0B, CHR 0x0C, CHR 0x0D, CHR 0xA0])"

definition trim :: "string \<Rightarrow> string" where
  "trim s = rev (dropWhile is_space (rev (dropWhile is_space s)))"

definition number_of :: "string \<Rightarrow> nat" where
  "number_of s = foldl (\<lambda>n c. 10 * n + (of_char c - 48)) 0 s"

definition numeric_identifier :: "string \<Rightarrow> bool" where
  "numeric_identifier s = (s \<noteq> [] \<and> list_all is_digit s \<and> (s = ''0'' \<or> hd s \<noteq> CHR ''0''))"

definition prerelease_identifier :: "string \<Rightarrow> bool" where
  "prerelease_identifier s =
     (s \<noteq> [] \<and> list_all is_identifier_char s \<and> (list_all is_digit s \<longrightarrow> numeric_identifier s))"

definition build_identifier :: "string \<Rightarrow> bool" where
  "build_identifier s = (s \<noteq> [] \<and> list_all is_identifier_char s)"

text \<open>\<open>s.split(c)\<close>.\<close>

fun split_on :: "char \<Rightarrow> string \<Rightarrow> string list" where
  "split_on c [] = [[]]"
| "split_on c (x # xs) =
     (if x = c then [] # split_on c xs
      else (case split_on c xs of w # ws \<Rightarrow> (x # w) # ws | [] \<Rightarrow> [[x]]))"

definition MAX_LENGTH :: nat where
  "MAX_LENGTH = 256"

definition MAX_SAFE_INTEGER :: int where
  "MAX_SAFE_INTEGER = 9007199254740991"

text \<open>A parsed version: major, minor, patch, the prerelease identifiers and the build
  identifiers.\<close>

datatype SemVer = SemVer nat nat nat "string list" "string list"

definition semver_parse :: "string \<Rightarrow> SemVer option" where
  "semver_parse raw =
     (if MAX_LENGTH < length raw then None
      else
        let trimmed = trim raw;
            s = (case trimmed of c # r \<Rightarrow> if c = CHR ''v'' then r else trimmed | [] \<Rightarrow> trimmed);
            main_pre = takeWhile (\<lambda>c. c \<noteq> CHR ''+'') s;
            build = dropWhile (\<lambda>c. c \<noteq> CHR ''+'') s;
            main = takeWhile (\<lambda>c. c \<noteq> CHR ''-'') main_pre;
            pre = dropWhile (\<lambda>c. c \<noteq> CHR ''-'') main_pre;
            prerelease = (if pre = [] then [] else split_on CHR ''.'' (tl pre));
            build_ids = (if build = [] then [] else split_on CHR ''.'' (tl build))
        in case split_on CHR ''.'' main of
             [a, b, c] \<Rightarrow>
               if numeric_identifier a \<and> numeric_identifier b \<and> numeric_identifier c \<and>
                  list_all prerelease_identifier prerelease \<and>
                  list_all build_identifier build_ids \<and>
                  int (number_of a) \<le> MAX_SAFE_INTEGER \<and>
                  int (number_of b) \<le> MAX_SAFE_INTEGER \<and>
                  int (number_of c) \<le> MAX_SAFE_INTEGER
               then Some (SemVer (number_of a) (number_of b) (number_of c) prerelease build_ids)
               else None
           | _ \<Rightarrow> None)"

definition semver_format :: "nat \<Rightarrow> nat \<Rightarrow> nat \<Rightarrow> string" where
  "semver_format ma mi pa = string_of_nat ma @ ''.'' @ string_of_nat mi @ ''.'' @ string_of_nat pa"

text \<open>
  \<open>semver.inc(version, release)\<close>. A release of a prerelease version drops the
  prerelease tag and increments a component only where the lower components are not
  all zero. \<open>none\<close> is not a release type of the package; the command never passes it.
\<close>

definition semver_inc :: "string \<Rightarrow> VersionJump \<Rightarrow> string option" where
  "semver_inc raw release =
     (case semver_parse raw of
        None \<Rightarrow> None
      | Some (SemVer ma mi pa prerelease build) \<Rightarrow>
          (case release of
             major \<Rightarrow>
               Some (semver_format (if mi \<noteq> 0 \<or> pa \<noteq> 0 \<or> prerelease = [] then ma + 1 else ma) 0 0)
           | minor \<Rightarrow>
               Some (semver_format ma (if pa \<noteq> 0 \<or> prerelease = [] then mi + 1 else mi) 0)
           | patch \<Rightarrow>
               Some (semver_format ma mi (if prerelease = [] then pa + 1 else pa))
           | none \<Rightarrow> None))"

section \<open>The version-bump command\<close>

text \<open>
  A package of the workspace: the directory it lives in and the content of its
  manifest. Of the manifest the command reads the name, the version and the
  \<open>private\<close> flag; a manifest without the flag is not private. The dependency list,
  the names of the packages it depends on with the versions asked for, is what syncing
  rewrites.
\<close>

record packageJson =
  pkgName :: string
  pkgVersion :: string
  pkgPrivate :: bool
  pkgDependencies :: "(string \<times> string) list"

record package =
  path :: string
  content :: packageJson

datatype bump_error = DepSynkyError string

definition show_jump :: "VersionJump \<Rightarrow> string" where
  "show_jump jump =
     (case jump of major \<Rightarrow> ''major'' | minor \<Rightarrow> ''minor'' | patch \<Rightarrow> ''patch'' | none \<Rightarrow> ''none'')"

text \<open>
  Modelled from the spec: \<open>utils.pkgjson.update\<close> belongs to the module
  \<open>../utils\<close>, whose code is not available.
  The specification says that the tool reads package manifests and rewrites them in
  place, so \<open>update(pkgPath, { version: next })\<close> rewrites the manifest stored at
  \<open>pkgPath\<close> with its version replaced and every other field kept. The disk is the
  map from package directories to the manifests stored there.
\<close>

definition pkgjson_update ::
  "string \<Rightarrow> string \<Rightarrow> (string \<rightharpoonup> packageJson) \<Rightarrow> (string \<rightharpoonup> packageJson)" where
  "pkgjson_update pkgPath next disk =
     (case disk pkgPath of
        None \<Rightarrow> disk
      | Some manifest \<Rightarrow> disk(pkgPath \<mapsto> manifest\<lparr>pkgVersion := next\<rparr>))"



text \<open>
  The state the loop of \<open>bumpVersion\<close> works on: the disk, the \<open>targetVersions\<close>
  dictionary and, as a record of the interaction, the packages the user has been
  prompted for so far.
\<close>

record bump_state =
  disk :: "string \<rightharpoonup> packageJson"
  targetVersions :: "string \<rightharpoonup> string"
  prompts :: "package list"

text \<open>
  The loop over \<open>targetPackages\<close>. The user is a parameter: \<open>answers i\<close> is the
  choice made at the \<open>i\<close>-th prompt of the run, one of the four values of
  \<open>VersionJump\<close> as the type of \<open>promptJump\<close> says (a prompt the user aborts is not
  modelled). An exception leaves the loop with the state reached so far, which is what
  stays on the disk.
\<close>

fun bumpLoop ::
  "(nat \<Rightarrow> VersionJump) \<Rightarrow> package list \<Rightarrow> bump_state \<Rightarrow> bump_error option \<times> bump_state" where
  "bumpLoop answers [] s = (None, s)"
| "bumpLoop answers (pkg # rest) s =
     (if pkgPrivate (content pkg) then bumpLoop answers rest s
      else
        let jump = answers (length (prompts s));
            s1 = s\<lparr>prompts := prompts s @ [pkg]\<rparr>
        in if jump = none then bumpLoop answers rest s1
           else (case semver_inc (pkgVersion (content pkg)) jump of
                   None \<Rightarrow> (Some (DepSynkyError (''Invalid version jump: '' @ show_jump jump)), s1)
                 | Some next \<Rightarrow>
                     bumpLoop answers rest
                       (s1\<lparr>targetVersions := (targetVersions s1)(pkgName (content pkg) \<mapsto> next),
                           disk := pkgjson_update (path pkg) next (disk s1)\<rparr>)))"


text \<open>The state after a package has been prompted for and its version replaced.\<close>

definition bumped :: "bump_state \<Rightarrow> package \<Rightarrow> string \<Rightarrow> bump_state" where
  "bumped s pkg next =
     s\<lparr>prompts := prompts s @ [pkg],
       targetVersions := (targetVersions s)(pkgName (content pkg) \<mapsto> next),
       disk := pkgjson_update (path pkg) next (disk s)\<rparr>"

section \<open>Example inputs\<close>

text \<open>Concrete definitions and packages, on which the theorems below are instantiated.\<close>

definition example_toJsonSchema :: "jv \<Rightarrow> jv" where
  "example_toJsonSchema x = JObj (fmap_of_list [(''type'', JStr ''object'')])"


definition minimal_definition :: "(string, jv) fmap" where
  "minimal_definition = fmap_of_list [(''name'', JStr ''slack''), (''version'', JStr ''0.0.1'')]"

definition unversioned_definition :: "(string, jv) fmap" where
  "unversioned_definition = fmap_of_list [(''name'', JStr ''slack''), (''version'', JStr ''1.0.0'')]"

definition nameless_definition :: "(string, jv) fmap" where
  "nameless_definition = fmap_of_list [(''version'', JStr ''0.2.0'')]"





definition unversioned_messageless_definition :: "(string, jv) fmap" where
  "unversioned_messageless_definition = fmap_of_list
     [(''version'', JStr ''1.0.0''),
      (''channels'', JObj (fmap_of_list [(''dm'', JObj fmempty)]))]"


definition example_package :: "string \<Rightarrow> string \<Rightarrow> string \<Rightarrow> bool \<Rightarrow> package" where
  "example_package p n v priv =
     \<lparr>path = p,
      content = \<lparr>pkgName = n, pkgVersion = v, pkgPrivate = priv, pkgDependencies = []\<rparr>\<rparr>"

definition example_disk :: "package list \<Rightarrow> (string \<rightharpoonup> packageJson)" where
  "example_disk pkgs = map_of (map (\<lambda>pkg. (path pkg, content pkg)) pkgs)"

definition example_state :: "package list \<Rightarrow> bump_state" where
  "example_state pkgs =
     \<lparr>disk = example_disk pkgs,
      targetVersions = map_of (map (\<lambda>pkg. (pkgName (content pkg), pkgVersion (content pkg))) pkgs),
      prompts = []\<rparr>"

definition pkg_a :: package where
  "pkg_a = example_package ''packages/a'' ''a'' ''1.2.3'' False"

definition pkg_b :: package where
  "pkg_b = example_package ''packages/b'' ''b'' ''1.2.3-beta.1'' False"

definition pkg_c :: package where
  "pkg_c = example_package ''packages/c'' ''c'' ''not-a-version'' False"

definition pkg_d :: package where
  "pkg_d = example_package ''packages/d'' ''d'' ''1.2.0-beta.1'' False"

definition pkg_e :: package where
  "pkg_e = example_package ''packages/e'' ''e'' ''2.0.0-rc.1'' False"

definition pkg_p :: package where
  "pkg_p = example_package ''packages/p'' ''p'' ''0.0.1'' True"



definition minimal_manifest :: integrationDefinition where
  "minimal_manifest =
     \<lparr> name = JStr ''slack'', version = JStr ''0.0.1'', icon = JUndefined, readme = JUndefined,
       title = JUndefined, description = JUndefined, configuration = JUndefined,
       events = JUndefined, actions = JUndefined, channels = JUndefined, states = JUndefined,
       user = JUndefined, secrets = JUndefined \<rparr>"


section \<open>Properties of parsing\<close>


lemma field_fmupd: "field (fmupd k x m) k' = (if k = k' then x else field m k')"
  by (simp add: field_def)

lemma field_absent: "k |\<notin>| fmdom m \<Longrightarrow> field m k = JUndefined"
  by (simp add: field_def fmdom_notD)

lemma find_in: "find P xs = Some r \<Longrightarrow> r \<in> set xs \<and> P r"
  by (induction xs) (auto split: if_splits)

text \<open>Every issue raised while a value is parsed lies at or below the path of that
  value.\<close>

lemma parse_issue_prefix:
  "i \<in> fst (parse z p v) \<Longrightarrow> prefix p (issue_path i)"
proof (induction z p v arbitrary: i rule: parse.induct)
  case (1 p v) then show ?case by (auto split: jv.splits)
next
  case (2 p v) then show ?case by (auto split: jv.splits)
next
  case (3 s p v) then show ?case by (auto split: if_splits)
next
  case (4 ss p v) then show ?case by (auto split: jv.splits if_splits)
next
  case (5 zs p v)
  then show ?case
    apply (auto simp: Let_def split: option.splits dest!: find_in)
     apply (metis fst_conv)+
    done
next
  case (6 z p v)
  then show ?case
    apply (auto simp: Let_def in_set_enumerate_eq split: jv.splits)
    apply (metis append_prefixD fst_conv)
    done
next
  case (7 z p v)
  then show ?case
    apply (auto simp: Let_def fmlookup_ran'_iff split: jv.splits option.splits)
    apply (metis append_prefixD fst_conv)
    done
next
  case (8 shape uk p v)
  then show ?case
    apply (auto simp: Let_def split: jv.splits)
    apply (metis append_prefixD fst_conv)
    done
next
  case (9 z p v) then show ?case by (auto split: if_splits)
next
  case (10 z chk msg p v)
  then show ?case by (auto split: prod.splits option.splits if_splits)
qed



text \<open>An object: its issues are those of its declared fields, and it is aborted when one
  of them is.\<close>

lemma parse_object_issues:
  "fst (parse (ZObject shape uk) p (JObj m)) =
     (\<Union>(k, z)\<in>set shape. fst (parse z (p @ [Key k]) (field m k)))"
  by (auto simp: Let_def)

lemma parse_object_aborted:
  "snd (parse (ZObject shape uk) p (JObj m)) = None \<longleftrightarrow>
     (\<exists>(k, z)\<in>set shape. snd (parse z (p @ [Key k]) (field m k)) = None)"
  by (auto simp: Let_def list_all_iff)

lemma map_of_filter_map_distinct:
  assumes "distinct (map fst shape)" "(k, z) \<in> set shape"
  shows "map_of (filter (\<lambda>(k, x). P k x) (map (\<lambda>(k, z). (k, f k z)) shape)) k =
           (if P k (f k z) then Some (f k z) else None)"
  using assms
proof (induction shape)
  case Nil then show ?case by simp
next
  case (Cons a shape)
  obtain k' z' where a: "a = (k', z')" by (cases a)
  show ?case
  proof (cases "k' = k")
    case True
    with Cons.prems a have z: "z' = z"
      by (auto simp: image_iff) 
    have notin: "k \<notin> fst ` set shape" using Cons.prems a True by auto
    have "map_of (filter (\<lambda>(k, x). P k x) (map (\<lambda>(k, z). (k, f k z)) shape)) k = None"
      using notin by (auto simp: map_of_eq_None_iff image_iff)
    then show ?thesis using a True z by auto
  next
    case False
    then show ?thesis using Cons a by auto
  qed
qed

lemma parse_object_field:
  assumes "distinct (map fst shape)" "(k, z) \<in> set shape"
      and "snd (parse (ZObject shape uk) p (JObj m)) = Some r"
      and plain: "k \<noteq> ''__proto__''"
  shows "field (own_props r) k = the (snd (parse z (p @ [Key k]) (field m k)))"
proof -
  let ?f = "\<lambda>k z. the (snd (parse z (p @ [Key k]) (field m k)))"
  let ?P = "\<lambda>k x. x \<noteq> JUndefined \<or> k |\<in>| fmdom m"
  let ?extra = "(case uk of Strip \<Rightarrow> fmempty
                | Passthrough \<Rightarrow> defined_entries (fmdrop_set (fst ` set shape) m))"
  have maps: "map (\<lambda>(k, r). (k, the (snd r))) (map (\<lambda>(k, z). (k, parse z (p @ [Key k]) (field m k))) shape)
       = map (\<lambda>(k, z). (k, ?f k z)) shape"
    by (auto)
  have r: "r = JObj (merged (fmap_of_list (filter (\<lambda>(k, x). ?P k x) (map (\<lambda>(k, z). (k, ?f k z)) shape)) ++\<^sub>f ?extra))"
    using assms(3) unfolding maps[symmetric]
    by (auto simp: Let_def split: if_splits)
  have kin: "k \<in> fst ` set shape" using assms(2) by force
  have ex: "fmlookup ?extra k = None"
    using kin by (cases uk) (auto simp: defined_entries_def)
  have "fmlookup (fmap_of_list (filter (\<lambda>(k, x). ?P k x) (map (\<lambda>(k, z). (k, ?f k z)) shape)) ++\<^sub>f ?extra) k
        = (if ?P k (?f k z) then Some (?f k z) else None)"
    using ex map_of_filter_map_distinct[OF assms(1,2), of ?P ?f]
    by (simp add: fmlookup_of_list fmdom_notI)
  then show ?thesis
    unfolding r using plain by (auto simp: field_def own_props_def merged_def)
qed

lemma parse_object_valid_field:
  assumes "distinct (map fst shape)" "(k, z) \<in> set shape"
      and "parse (ZObject shape uk) p (JObj m) = ({}, Some r)"
      and plain: "k \<noteq> ''__proto__''"
  shows "parse z (p @ [Key k]) (field m k) = ({}, Some (field (own_props r) k))"
proof -
  have "fst (parse (ZObject shape uk) p (JObj m)) = {}" using assms(3) by simp
  then have f: "fst (parse z (p @ [Key k]) (field m k)) = {}"
    unfolding parse_object_issues using assms(2) by blast
  have "snd (parse (ZObject shape uk) p (JObj m)) \<noteq> None" using assms(3) by simp
  then have s: "snd (parse z (p @ [Key k]) (field m k)) \<noteq> None"
    unfolding parse_object_aborted using assms(2) by blast
  have "snd (parse (ZObject shape uk) p (JObj m)) = Some r" using assms(3) by simp
  from parse_object_field[OF assms(1,2) this plain]
  have "field (own_props r) k = the (snd (parse z (p @ [Key k]) (field m k)))" .
  with f s show ?thesis by (cases "parse z (p @ [Key k]) (field m k)") auto
qed









text \<open>\<open>schema.parse\<close>.\<close>

lemma parse_schema_Inr:
  "parse_schema z d = Inr r \<longleftrightarrow> parse z [] d = ({}, Some r)"
  by (auto simp: parse_schema_def split: prod.splits option.splits if_splits)

lemma parse_schema_Inl:
  "parse_schema z d = Inl e \<longleftrightarrow> e = ZodError (fst (parse z [] d)) \<and> \<not> is_valid (parse z [] d)"
  by (auto simp: parse_schema_def is_valid_def split: prod.splits option.splits if_splits)



section \<open>Properties of the formatter\<close>

lemma format_alt:
  "formatIntegrationDefinition tjs d =
     do {
       e \<leftarrow> format_events tjs (field d ''events'');
       a \<leftarrow> format_actions tjs (field d ''actions'');
       ch \<leftarrow> format_channels tjs (field d ''channels'');
       s \<leftarrow> format_events tjs (field d ''states'');
       Some (JObj
         (fmupd ''user'' (field d ''user'')
         (fmupd ''states'' s
         (fmupd ''channels'' ch
         (fmupd ''actions'' a
         (fmupd ''events'' e
         (fmupd ''configuration'' (format_configuration tjs (field d ''configuration'')) d)))))))
     }"
  unfolding formatIntegrationDefinition_def format_events_def format_actions_def format_action_def
    format_channels_def format_channel_def format_configuration_def translated_def Let_def
  by (rule refl)

lemma format_SomeD:
  assumes "formatIntegrationDefinition tjs d = Some input"
  shows "\<exists>e a ch s.
         format_events tjs (field d ''events'') = Some e \<and>
         format_actions tjs (field d ''actions'') = Some a \<and>
         format_channels tjs (field d ''channels'') = Some ch \<and>
         format_events tjs (field d ''states'') = Some s \<and>
         input = JObj
         (fmupd ''user'' (field d ''user'')
         (fmupd ''states'' s
         (fmupd ''channels'' ch
         (fmupd ''actions'' a
         (fmupd ''events'' e
         (fmupd ''configuration'' (format_configuration tjs (field d ''configuration'')) d))))))"
  using assms unfolding format_alt
  by (auto simp: bind_eq_Some_conv)

text \<open>The manifest shape: its keys are distinct, and these are its entries.\<close>

lemma shape_distinct: "distinct (map fst integrationDefinitionShape)"
  by (simp add: integrationDefinitionShape_def)

lemma shape_mem:
  "(''name'', z_string) \<in> set integrationDefinitionShape"
  "(''version'', z_enum [PRIVATE_VERSION, PUBLIC_VERSION]) \<in> set integrationDefinitionShape"
  "(''title'', optional z_string) \<in> set integrationDefinitionShape"
  "(''description'', optional z_string) \<in> set integrationDefinitionShape"
  "(''icon'', optional z_string) \<in> set integrationDefinitionShape"
  "(''readme'', optional z_string) \<in> set integrationDefinitionShape"
  "(''configuration'', optional configurationDefinitionSchema) \<in> set integrationDefinitionShape"
  "(''events'', optional (z_record eventDefinitionSchema)) \<in> set integrationDefinitionShape"
  "(''actions'', optional (z_record actionDefinitionSchema)) \<in> set integrationDefinitionShape"
  "(''channels'', optional (z_record channelDefinitionSchema)) \<in> set integrationDefinitionShape"
  "(''states'', optional (z_record stateDefinitionSchema)) \<in> set integrationDefinitionShape"
  "(''secrets'', optional (z_array z_string)) \<in> set integrationDefinitionShape"
  by (simp_all add: integrationDefinitionShape_def)

lemma shape_plain: "(k, z) \<in> set integrationDefinitionShape \<Longrightarrow> k \<noteq> ''__proto__''"
  by (auto simp: integrationDefinitionShape_def)

lemma shape_user_optional:
  "\<exists>z. (''user'', optional z) \<in> set integrationDefinitionShape"
  by (simp add: integrationDefinitionShape_def)




text \<open>The fields of the formatted object.\<close>

lemma formatted_plain_field:
  assumes "formatIntegrationDefinition tjs d = Some (JObj m)"
      and "k \<notin> {''configuration'', ''events'', ''actions'', ''channels'', ''states''}"
  shows "field m k = field d k"
  using format_SomeD[OF assms(1)] assms(2)
  by (auto simp: field_def)






lemma format_events_undefined: "format_events tjs JUndefined = Some JUndefined"
  by (simp add: format_events_def truthy_def)

lemma format_actions_undefined: "format_actions tjs JUndefined = Some JUndefined"
  by (simp add: format_actions_def truthy_def)

lemma format_channels_undefined: "format_channels tjs JUndefined = Some JUndefined"
  by (simp add: format_channels_def truthy_def)

lemma format_configuration_undefined: "format_configuration tjs JUndefined = JUndefined"
  by (simp add: format_configuration_def truthy_def)

lemma formatted_absent_field:
  assumes f: "formatIntegrationDefinition tjs d = Some (JObj m)"
      and a: "field d k = JUndefined"
  shows "field m k = JUndefined"
proof -
  from format_SomeD[OF f] obtain e a' ch s where
    e: "format_events tjs (field d ''events'') = Some e" and
    a': "format_actions tjs (field d ''actions'') = Some a'" and
    ch: "format_channels tjs (field d ''channels'') = Some ch" and
    s: "format_events tjs (field d ''states'') = Some s" and
    m: "m = fmupd ''user'' (field d ''user'')
         (fmupd ''states'' s
         (fmupd ''channels'' ch
         (fmupd ''actions'' a'
         (fmupd ''events'' e
         (fmupd ''configuration'' (format_configuration tjs (field d ''configuration'')) d)))))"
    by auto
  have fu: "\<And>k' x m'. field (fmupd k' x m') k = (if k = k' then x else field m' k)"
    by (auto simp: field_fmupd)
  have 1: ?thesis if "k = ''user''" using a unfolding that m by (simp add: field_fmupd)
  have 2: ?thesis if "k = ''states''"
    using a s unfolding that m by (simp add: field_fmupd format_events_undefined)
  have 3: ?thesis if "k = ''channels''"
    using a ch unfolding that m by (simp add: field_fmupd format_channels_undefined)
  have 4: ?thesis if "k = ''actions''"
    using a a' unfolding that m by (simp add: field_fmupd format_actions_undefined)
  have 5: ?thesis if "k = ''events''"
    using a e unfolding that m by (simp add: field_fmupd format_events_undefined)
  have 6: ?thesis if "k = ''configuration''"
    using a unfolding that m by (simp add: field_fmupd format_configuration_undefined)
  have 7: ?thesis
    if "k \<noteq> ''user''" "k \<noteq> ''states''" "k \<noteq> ''channels''" "k \<noteq> ''actions''"
       "k \<noteq> ''events''" "k \<noteq> ''configuration''"
    using a that unfolding m by (simp add: fu)
  from 1 2 3 4 5 6 7 show ?thesis by blast
qed












text \<open>When formatting raises.\<close>

lemma mapValues_None:
  "mapValues v f = None \<longleftrightarrow>
     nullish v \<or> (\<exists>k x. fmlookup (own_props v) k = Some x \<and> f x = None)"
  by (auto simp: mapValues_def nullish_def fmpred_iff)

lemma truthy_not_nullish: "truthy v \<Longrightarrow> \<not> nullish v"
  by (auto simp: truthy_def nullish_def)

lemma format_events_total: "format_events tjs e \<noteq> None"
proof (cases "truthy e")
  case True
  then have "mapValues e (\<lambda>event. Some (translated tjs event)) \<noteq> None"
    unfolding mapValues_None by (auto dest: truthy_not_nullish)
  with True show ?thesis by (simp add: format_events_def)
next
  case False
  then show ?thesis by (simp add: format_events_def)
qed

lemma format_action_None: "format_action tjs a = None \<longleftrightarrow> nullish a"
  by (auto simp: format_action_def read_prop_def nullish_def)

lemma format_channel_None:
  "format_channel tjs c = None \<longleftrightarrow> nullish c \<or> nullish (field (own_props c) ''messages'')"
  by (auto simp: format_channel_def read_prop_def mapValues_None bind_eq_None_conv nullish_def)

lemma format_actions_None:
  "format_actions tjs a = None \<longleftrightarrow>
     truthy a \<and> (\<exists>k x. fmlookup (own_props a) k = Some x \<and> nullish x)"
  by (auto simp: format_actions_def mapValues_None format_action_None dest: truthy_not_nullish)

lemma format_channels_None:
  "format_channels tjs c = None \<longleftrightarrow>
     truthy c \<and> (\<exists>k x. fmlookup (own_props c) k = Some x \<and>
                    (nullish x \<or> nullish (field (own_props x) ''messages'')))"
  by (auto simp: format_channels_def mapValues_None format_channel_None dest: truthy_not_nullish)

lemma format_None_iff:
  "formatIntegrationDefinition tjs d = None \<longleftrightarrow>
     (truthy (field d ''actions'') \<and>
        (\<exists>k x. fmlookup (own_props (field d ''actions'')) k = Some x \<and> nullish x)) \<or>
     (truthy (field d ''channels'') \<and>
        (\<exists>k x. fmlookup (own_props (field d ''channels'')) k = Some x \<and>
           (nullish x \<or> nullish (field (own_props x) ''messages''))))"
proof -
  have "formatIntegrationDefinition tjs d = None \<longleftrightarrow>
      format_actions tjs (field d ''actions'') = None \<or>
      format_channels tjs (field d ''channels'') = None"
    unfolding format_alt
    using format_events_total[of tjs "field d ''events''"] format_events_total[of tjs "field d ''states''"]
    by (auto simp: bind_eq_None_conv)
  then show ?thesis unfolding format_actions_None format_channels_None .
qed

section \<open>Properties of the constructor\<close>

lemma IntegrationDefinition_InrD:
  assumes "IntegrationDefinition tjs props = Inr d"
  shows "\<exists>m r. formatIntegrationDefinition tjs props = Some (JObj m) \<and>
           parse integrationDefinitionSchema [] (JObj m) = ({}, Some r) \<and>
           d = \<lparr> name = field (own_props r) ''name'',
                     version = field (own_props r) ''version'',
                     icon = field (own_props r) ''icon'',
                     readme = field (own_props r) ''readme'',
                     title = field (own_props r) ''title'',
                     description = field (own_props r) ''description'',
                     configuration = field (own_props r) ''configuration'',
                     events = field (own_props r) ''events'',
                     actions = field (own_props r) ''actions'',
                     channels = field (own_props r) ''channels'',
                     states = field (own_props r) ''states'',
                     user = field (own_props r) ''user'',
                     secrets = field (own_props r) ''secrets'' \<rparr>"
proof -
  from assms obtain input where f: "formatIntegrationDefinition tjs props = Some input"
    by (auto simp: IntegrationDefinition_def split: option.splits)
  from format_SomeD[OF f] obtain m where m: "input = JObj m" by blast
  from assms f obtain r where r: "parse_schema integrationDefinitionSchema input = Inr r"
    by (auto simp: IntegrationDefinition_def split: sum.splits)
  then have r': "parse_schema integrationDefinitionSchema (JObj m) = Inr r" using m by simp
  then have "parse integrationDefinitionSchema [] (JObj m) = ({}, Some r)"
    by (simp add: parse_schema_Inr)
  moreover have "d = \<lparr> name = field (own_props r) ''name'',
                     version = field (own_props r) ''version'',
                     icon = field (own_props r) ''icon'',
                     readme = field (own_props r) ''readme'',
                     title = field (own_props r) ''title'',
                     description = field (own_props r) ''description'',
                     configuration = field (own_props r) ''configuration'',
                     events = field (own_props r) ''events'',
                     actions = field (own_props r) ''actions'',
                     channels = field (own_props r) ''channels'',
                     states = field (own_props r) ''states'',
                     user = field (own_props r) ''user'',
                     secrets = field (own_props r) ''secrets'' \<rparr>"
    using assms f m r' by (simp add: IntegrationDefinition_def)
  ultimately show ?thesis using f m by blast
qed

lemma IntegrationDefinition_InlD:
  assumes "IntegrationDefinition tjs props = Inl (ZodError is)"
  shows "\<exists>m. formatIntegrationDefinition tjs props = Some (JObj m) \<and>
           is = fst (parse integrationDefinitionSchema [] (JObj m)) \<and>
           \<not> is_valid (parse integrationDefinitionSchema [] (JObj m))"
proof -
  from assms obtain input where f: "formatIntegrationDefinition tjs props = Some input"
    by (auto simp: IntegrationDefinition_def split: option.splits)
  from format_SomeD[OF f] obtain m where m: "input = JObj m" by blast
  from assms f have "parse_schema integrationDefinitionSchema input = Inl (ZodError is)"
    by (auto simp: IntegrationDefinition_def split: sum.splits)
  with f m show ?thesis
    by (auto simp: parse_schema_Inl)
qed

lemma IntegrationDefinition_invalid:
  assumes "formatIntegrationDefinition tjs props = Some input"
      and "\<not> is_valid (parse integrationDefinitionSchema [] input)"
  shows "IntegrationDefinition tjs props = Inl (ZodError (fst (parse integrationDefinitionSchema [] input)))"
proof -
  have "parse_schema integrationDefinitionSchema input = Inl (ZodError (fst (parse integrationDefinitionSchema [] input)))"
    using assms(2) by (simp add: parse_schema_Inl)
  then show ?thesis using assms(1) by (simp add: IntegrationDefinition_def)
qed

lemma IntegrationDefinition_TypeError:
  "formatIntegrationDefinition tjs props = None \<Longrightarrow> IntegrationDefinition tjs props = Inl TypeError"
  by (simp add: IntegrationDefinition_def)

lemma top_field_issue:
  assumes "formatIntegrationDefinition tjs d = Some (JObj m)"
      and "(k, z) \<in> set integrationDefinitionShape"
      and "i \<in> fst (parse z [Key k] (field m k))"
  shows "\<exists>is. IntegrationDefinition tjs d = Inl (ZodError is) \<and> i \<in> is"
proof -
  have "i \<in> fst (parse integrationDefinitionSchema [] (JObj m))"
    unfolding integrationDefinitionSchema_def parse_object_issues
    using assms(2,3) by force
  moreover from this have "\<not> is_valid (parse integrationDefinitionSchema [] (JObj m))"
    by (auto simp: is_valid_def)
  ultimately show ?thesis
    using IntegrationDefinition_invalid[OF assms(1)] by blast
qed

lemma optional_field_undefined:
  assumes p: "parse (z_object shape) [] (JObj m) = ({}, Some r)"
      and d: "distinct (map fst shape)"
      and kz: "(k, optional z) \<in> set shape"
      and u: "field m k = JUndefined"
      and plain: "k \<noteq> ''__proto__''"
  shows "field (own_props r) k = JUndefined"
  using parse_object_valid_field[OF d kz p plain] u by simp


section \<open>The value parsing returns\<close>








section \<open>Properties of the version-bump loop\<close>

lemma bumpLoop_append:
  "bumpLoop answers (xs @ ys) s =
     (case bumpLoop answers xs s of (None, s1) \<Rightarrow> bumpLoop answers ys s1 | (Some e, s1) \<Rightarrow> (Some e, s1))"
  by (induction xs arbitrary: s) (auto simp: Let_def split: option.splits)

lemma pkgjson_update_other: "p \<noteq> q \<Longrightarrow> pkgjson_update q v d p = d p"
  by (simp add: pkgjson_update_def split: option.splits)

lemma pkgjson_update_same:
  "pkgjson_update p v d p = map_option (\<lambda>m. m\<lparr>pkgVersion := v\<rparr>) (d p)"
  by (simp add: pkgjson_update_def split: option.splits)

lemma bumpLoop_frame:
  assumes "bumpLoop answers pkgs s = (e, s')"
  shows "(\<forall>p. (\<forall>q\<in>set pkgs. \<not> pkgPrivate (content q) \<longrightarrow> path q \<noteq> p) \<longrightarrow> disk s' p = disk s p) \<and>
         (\<forall>n. (\<forall>q\<in>set pkgs. \<not> pkgPrivate (content q) \<longrightarrow> pkgName (content q) \<noteq> n) \<longrightarrow>
              targetVersions s' n = targetVersions s n) \<and>
         set (prompts s') \<subseteq> set (prompts s) \<union> {q \<in> set pkgs. \<not> pkgPrivate (content q)}"
  using assms
proof (induction pkgs arbitrary: s)
  case Nil
  then show ?case by simp
next
  case (Cons pkg rest)
  show ?case
  proof (cases "pkgPrivate (content pkg)")
    case True
    with Cons.prems have "bumpLoop answers rest s = (e, s')" by simp
    from Cons.IH[OF this] True show ?thesis by auto
  next
    case False
    let ?s1 = "s\<lparr>prompts := prompts s @ [pkg]\<rparr>"
    show ?thesis
    proof (cases "answers (length (prompts s)) = none")
      case True
      with False Cons.prems have "bumpLoop answers rest ?s1 = (e, s')" by (simp add: Let_def)
      from Cons.IH[OF this] False show ?thesis by auto
    next
      case jump: False
      show ?thesis
      proof (cases "semver_inc (pkgVersion (content pkg)) (answers (length (prompts s)))")
        case None
        with False jump Cons.prems have "s' = ?s1" by (simp add: Let_def)
        then show ?thesis using False by auto
      next
        case (Some nxt)
        let ?s2 = "?s1\<lparr>targetVersions := (targetVersions ?s1)(pkgName (content pkg) \<mapsto> nxt),
                           disk := pkgjson_update (path pkg) nxt (disk ?s1)\<rparr>"
        from Some False jump Cons.prems have "bumpLoop answers rest ?s2 = (e, s')" by (simp add: Let_def)
        from Cons.IH[OF this] False show ?thesis
          by (auto simp: pkgjson_update_other)
      qed
    qed
  qed
qed

lemma semver_inc_parsed:
  assumes "semver_parse v = Some (SemVer ma mi pa prerelease build)"
  shows "semver_inc v patch = Some (semver_format ma mi (if prerelease = [] then pa + 1 else pa))"
    and "semver_inc v minor =
           Some (semver_format ma (if pa \<noteq> 0 \<or> prerelease = [] then mi + 1 else mi) 0)"
    and "semver_inc v major =
           Some (semver_format (if mi \<noteq> 0 \<or> pa \<noteq> 0 \<or> prerelease = [] then ma + 1 else ma) 0 0)"
  using assms by (simp_all add: semver_inc_def)

lemma semver_inc_unparsed: "semver_parse v = None \<Longrightarrow> semver_inc v jump = None"
  by (simp add: semver_inc_def)

lemma bumpLoop_rest_frame:
  assumes run: "bumpLoop answers rest s0 = (e, s')"
      and others: "\<forall>q\<in>set rest. \<not> pkgPrivate (content q) \<longrightarrow>
             path q \<noteq> path pkg \<and> pkgName (content q) \<noteq> pkgName (content pkg)"
  shows "disk s' (path pkg) = disk s0 (path pkg) \<and>
         targetVersions s' (pkgName (content pkg)) = targetVersions s0 (pkgName (content pkg))"
  using bumpLoop_frame[OF run] others by blast


section \<open>The example inputs, evaluated\<close>

lemma minimal_constructed:
  "IntegrationDefinition example_toJsonSchema minimal_definition = Inr minimal_manifest"
  by code_simp


section \<open>Behaviour of the constructor\<close>




text \<open>
  Claim C2, as amended. A definition whose \<open>version\<close> is not one of the two literals
  \<open>0.0.1\<close> and \<open>0.2.0\<close>, or whose \<open>name\<close> is missing (or not a string), is never
  constructed: the constructor raises. What it raises is a validation error with an
  issue at the path of that field, unless formatting has already raised a
  \<open>TypeError\<close>, which it does exactly when an action or a channel of the definition is
  \<open>undefined\<close> or \<open>null\<close>, or the \<open>messages\<close> of a channel are. With an accepted
  version, no issue of a validation error lies at or below the path \<open>version\<close>.
\<close>

theorem version_and_required_fields:
  "(field props ''version'' \<noteq> JStr ''0.0.1'' \<and> field props ''version'' \<noteq> JStr ''0.2.0'' \<longrightarrow>
      (\<exists>e. IntegrationDefinition toJsonSchema props = Inl e) \<and>
      (formatIntegrationDefinition toJsonSchema props \<noteq> None \<longrightarrow>
         (\<exists>is. IntegrationDefinition toJsonSchema props = Inl (ZodError is) \<and>
               (\<exists>i\<in>is. issue_path i = [Key ''version'']))))
   \<and> ((\<forall>s. field props ''name'' \<noteq> JStr s) \<longrightarrow>
      (\<exists>e. IntegrationDefinition toJsonSchema props = Inl e) \<and>
      (formatIntegrationDefinition toJsonSchema props \<noteq> None \<longrightarrow>
         (\<exists>is. IntegrationDefinition toJsonSchema props = Inl (ZodError is) \<and>
               (\<exists>i\<in>is. issue_path i = [Key ''name'']))))
   \<and> (field props ''version'' = JStr ''0.0.1'' \<or> field props ''version'' = JStr ''0.2.0'' \<longrightarrow>
      (\<forall>is. IntegrationDefinition toJsonSchema props = Inl (ZodError is) \<longrightarrow>
         (\<forall>i\<in>is. \<not> prefix [Key ''version''] (issue_path i))))
   \<and> (formatIntegrationDefinition toJsonSchema props = None \<longrightarrow>
        IntegrationDefinition toJsonSchema props = Inl TypeError)
   \<and> (formatIntegrationDefinition toJsonSchema props = None \<longleftrightarrow>
        (truthy (field props ''actions'') \<and>
           (\<exists>k x. fmlookup (own_props (field props ''actions'')) k = Some x \<and> nullish x)) \<or>
        (truthy (field props ''channels'') \<and>
           (\<exists>k x. fmlookup (own_props (field props ''channels'')) k = Some x \<and>
              (nullish x \<or> nullish (field (own_props x) ''messages'')))))"
proof -
  have A: "(field props ''version'' \<noteq> JStr ''0.0.1'' \<and> field props ''version'' \<noteq> JStr ''0.2.0'' \<longrightarrow>
      (\<exists>e. IntegrationDefinition toJsonSchema props = Inl e) \<and>
      (formatIntegrationDefinition toJsonSchema props \<noteq> None \<longrightarrow>
         (\<exists>is. IntegrationDefinition toJsonSchema props = Inl (ZodError is) \<and>
               (\<exists>i\<in>is. issue_path i = [Key ''version'']))))
   \<and> ((\<forall>s. field props ''name'' \<noteq> JStr s) \<longrightarrow>
      (\<exists>e. IntegrationDefinition toJsonSchema props = Inl e) \<and>
      (formatIntegrationDefinition toJsonSchema props \<noteq> None \<longrightarrow>
         (\<exists>is. IntegrationDefinition toJsonSchema props = Inl (ZodError is) \<and>
               (\<exists>i\<in>is. issue_path i = [Key ''name'']))))
   \<and> (field props ''version'' = JStr ''0.0.1'' \<or> field props ''version'' = JStr ''0.2.0'' \<longrightarrow>
      (\<forall>is. IntegrationDefinition toJsonSchema props = Inl (ZodError is) \<longrightarrow>
         (\<forall>i\<in>is. \<not> prefix [Key ''version''] (issue_path i))))"
  proof (intro conjI impI allI ballI)
    assume bad: "field props ''version'' \<noteq> JStr ''0.0.1'' \<and> field props ''version'' \<noteq> JStr ''0.2.0''"
    have fmt: "\<exists>is. IntegrationDefinition toJsonSchema props = Inl (ZodError is) \<and>
                 (\<exists>i\<in>is. issue_path i = [Key ''version''])"
      if f: "formatIntegrationDefinition toJsonSchema props \<noteq> None"
    proof -
      from f obtain input where i: "formatIntegrationDefinition toJsonSchema props = Some input" by auto
      from format_SomeD[OF i] obtain m where m: "input = JObj m" by blast
      have v: "field m ''version'' = field props ''version''"
        using formatted_plain_field[OF i[unfolded m]] by simp
      have "\<exists>c. Issue c [Key ''version''] \<in> fst (parse (z_enum [PRIVATE_VERSION, PUBLIC_VERSION]) [Key ''version''] (field m ''version''))"
        using bad unfolding v
        by (cases "field props ''version''") (auto simp: PRIVATE_VERSION_def PUBLIC_VERSION_def)
      then obtain c where "Issue c [Key ''version''] \<in> fst (parse (z_enum [PRIVATE_VERSION, PUBLIC_VERSION]) [Key ''version''] (field m ''version''))" ..
      from top_field_issue[OF i[unfolded m] _ this]
      show ?thesis by (force simp: integrationDefinitionShape_def)
    qed
    show "\<exists>e. IntegrationDefinition toJsonSchema props = Inl e"
      using fmt IntegrationDefinition_TypeError by (cases "formatIntegrationDefinition toJsonSchema props") blast+
    show "\<exists>is. IntegrationDefinition toJsonSchema props = Inl (ZodError is) \<and>
                 (\<exists>i\<in>is. issue_path i = [Key ''version''])"
      if "formatIntegrationDefinition toJsonSchema props \<noteq> None"
      using fmt that by blast
  next
    assume bad: "\<forall>s. field props ''name'' \<noteq> JStr s"
    have fmt: "\<exists>is. IntegrationDefinition toJsonSchema props = Inl (ZodError is) \<and>
                 (\<exists>i\<in>is. issue_path i = [Key ''name''])"
      if f: "formatIntegrationDefinition toJsonSchema props \<noteq> None"
    proof -
      from f obtain input where i: "formatIntegrationDefinition toJsonSchema props = Some input" by auto
      from format_SomeD[OF i] obtain m where m: "input = JObj m" by blast
      have v: "field m ''name'' = field props ''name''"
        using formatted_plain_field[OF i[unfolded m]] by simp
      have "Issue invalid_type [Key ''name''] \<in> fst (parse z_string [Key ''name''] (field m ''name''))"
        using bad unfolding v
        by (cases "field props ''name''") auto
      from top_field_issue[OF i[unfolded m] _ this]
      show ?thesis by (force simp: integrationDefinitionShape_def)
    qed
    show "\<exists>e. IntegrationDefinition toJsonSchema props = Inl e"
      using fmt IntegrationDefinition_TypeError by (cases "formatIntegrationDefinition toJsonSchema props") blast+
    show "\<exists>is. IntegrationDefinition toJsonSchema props = Inl (ZodError is) \<and>
                 (\<exists>i\<in>is. issue_path i = [Key ''name''])"
      if "formatIntegrationDefinition toJsonSchema props \<noteq> None"
      using fmt that by blast
  next
    fix "is" i
    assume ok: "field props ''version'' = JStr ''0.0.1'' \<or> field props ''version'' = JStr ''0.2.0''"
      and e: "IntegrationDefinition toJsonSchema props = Inl (ZodError is)"
      and i: "i \<in> is"
    from IntegrationDefinition_InlD[OF e] obtain m where
      f: "formatIntegrationDefinition toJsonSchema props = Some (JObj m)"
      and "is": "is = fst (parse integrationDefinitionSchema [] (JObj m))" by blast
    from i obtain k z where kz: "(k, z) \<in> set integrationDefinitionShape"
      and ik: "i \<in> fst (parse z ([] @ [Key k]) (field m k))"
      unfolding "is" integrationDefinitionSchema_def parse_object_issues by blast
    from parse_issue_prefix[OF ik] have pk: "prefix [Key k] (issue_path i)" by simp
    show "\<not> prefix [Key ''version''] (issue_path i)"
    proof
      assume "prefix [Key ''version''] (issue_path i)"
      with pk have "k = ''version''"
        by (auto simp: prefix_def)
      with kz have z: "z = z_enum [PRIVATE_VERSION, PUBLIC_VERSION]"
        by (auto simp: integrationDefinitionShape_def)
      have v: "field m ''version'' = field props ''version''"
        using formatted_plain_field[OF f] by simp
      from ik ok show False
        unfolding z \<open>k = ''version''\<close> v
        by (auto simp: PRIVATE_VERSION_def PUBLIC_VERSION_def)
    qed
  qed
  have B: "(formatIntegrationDefinition toJsonSchema props = None \<longrightarrow>
        IntegrationDefinition toJsonSchema props = Inl TypeError)"
    using IntegrationDefinition_TypeError by blast
  note C = format_None_iff[of toJsonSchema props]
  from A B C show ?thesis by blast
qed

theorem version_and_required_fields_witness:
  "field unversioned_definition ''version'' \<noteq> JStr ''0.0.1'' \<and>
   field unversioned_definition ''version'' \<noteq> JStr ''0.2.0'' \<and>
   formatIntegrationDefinition example_toJsonSchema unversioned_definition \<noteq> None \<and>
   (\<exists>is. IntegrationDefinition example_toJsonSchema unversioned_definition = Inl (ZodError is) \<and>
         (\<exists>i\<in>is. issue_path i = [Key ''version''])) \<and>
   (\<forall>s. field nameless_definition ''name'' \<noteq> JStr s) \<and>
   formatIntegrationDefinition example_toJsonSchema nameless_definition \<noteq> None \<and>
   (\<exists>is. IntegrationDefinition example_toJsonSchema nameless_definition = Inl (ZodError is) \<and>
         (\<exists>i\<in>is. issue_path i = [Key ''name''])) \<and>
   field nameless_definition ''version'' = JStr ''0.2.0'' \<and>
   IntegrationDefinition example_toJsonSchema nameless_definition =
     Inl (ZodError {Issue invalid_type [Key ''name'']}) \<and>
   \<not> prefix [Key ''version''] (issue_path (Issue invalid_type [Key ''name''])) \<and>
   formatIntegrationDefinition example_toJsonSchema unversioned_messageless_definition = None \<and>
   IntegrationDefinition example_toJsonSchema unversioned_messageless_definition = Inl TypeError"
proof -
  note t0 = version_and_required_fields
    [where props = unversioned_messageless_definition and toJsonSchema = example_toJsonSchema]
  have f0: "formatIntegrationDefinition example_toJsonSchema unversioned_messageless_definition = None"
    by code_simp
  from t0 f0 have c0:
    "IntegrationDefinition example_toJsonSchema unversioned_messageless_definition = Inl TypeError"
    by blast
  note t1 = version_and_required_fields
    [where props = unversioned_definition and toJsonSchema = example_toJsonSchema]
  note t2 = version_and_required_fields
    [where props = nameless_definition and toJsonSchema = example_toJsonSchema]
  have v1: "field unversioned_definition ''version'' \<noteq> JStr ''0.0.1'' \<and>
            field unversioned_definition ''version'' \<noteq> JStr ''0.2.0''" by code_simp
  have f1: "formatIntegrationDefinition example_toJsonSchema unversioned_definition \<noteq> None"
    by code_simp
  have n2: "\<forall>s. field nameless_definition ''name'' \<noteq> JStr s"
    by (simp add: nameless_definition_def field_def fmlookup_of_list)
  have f2: "formatIntegrationDefinition example_toJsonSchema nameless_definition \<noteq> None"
    by code_simp
  have a2: "field nameless_definition ''version'' = JStr ''0.2.0''" by code_simp
  have e2: "IntegrationDefinition example_toJsonSchema nameless_definition =
     Inl (ZodError {Issue invalid_type [Key ''name'']})" by code_simp
  from t1 v1 f1 have c1:
    "\<exists>is. IntegrationDefinition example_toJsonSchema unversioned_definition = Inl (ZodError is) \<and>
         (\<exists>i\<in>is. issue_path i = [Key ''version''])" by blast
  from t2 n2 f2 have c2:
    "\<exists>is. IntegrationDefinition example_toJsonSchema nameless_definition = Inl (ZodError is) \<and>
         (\<exists>i\<in>is. issue_path i = [Key ''name''])" by blast
  from t2 a2 e2 have c3:
    "\<not> prefix [Key ''version''] (issue_path (Issue invalid_type [Key ''name'']))" by blast
  from v1 f1 c1 n2 f2 c2 a2 e2 c3 f0 c0 show ?thesis by blast
qed

text \<open>
  The claim as first stated fails where formatting raises before validation: a
  definition with an unknown version, no name and a channel without \<open>messages\<close> is
  rejected with a \<open>TypeError\<close>, not with a validation error.
\<close>

theorem version_rejected_by_TypeError_counterexample:
  "field unversioned_messageless_definition ''version'' = JStr ''1.0.0'' \<and>
   field unversioned_messageless_definition ''name'' = JUndefined \<and>
   field (own_props (field unversioned_messageless_definition ''channels'')) ''dm'' = JObj fmempty \<and>
   IntegrationDefinition example_toJsonSchema unversioned_messageless_definition = Inl TypeError"
  by code_simp

text \<open>
  Claim C4. Whatever optional section or optional field a definition omits
  (\<open>title\<close>, \<open>description\<close>, \<open>icon\<close>, \<open>readme\<close>, \<open>configuration\<close>, \<open>events\<close>,
  \<open>actions\<close>, \<open>channels\<close>, \<open>states\<close>, \<open>user\<close>, \<open>secrets\<close>), the field of that
  name is \<open>undefined\<close> on the constructed object.
\<close>

theorem omitted_sections_undefined:
  assumes ok: "IntegrationDefinition toJsonSchema props = Inr d"
  shows "(''title'' |\<notin>| fmdom props \<longrightarrow> title d = JUndefined) \<and>
         (''description'' |\<notin>| fmdom props \<longrightarrow> description d = JUndefined) \<and>
         (''icon'' |\<notin>| fmdom props \<longrightarrow> icon d = JUndefined) \<and>
         (''readme'' |\<notin>| fmdom props \<longrightarrow> readme d = JUndefined) \<and>
         (''configuration'' |\<notin>| fmdom props \<longrightarrow> configuration d = JUndefined) \<and>
         (''events'' |\<notin>| fmdom props \<longrightarrow> events d = JUndefined) \<and>
         (''actions'' |\<notin>| fmdom props \<longrightarrow> actions d = JUndefined) \<and>
         (''channels'' |\<notin>| fmdom props \<longrightarrow> channels d = JUndefined) \<and>
         (''states'' |\<notin>| fmdom props \<longrightarrow> states d = JUndefined) \<and>
         (''user'' |\<notin>| fmdom props \<longrightarrow> user d = JUndefined) \<and>
         (''secrets'' |\<notin>| fmdom props \<longrightarrow> secrets d = JUndefined)"
proof -
  from IntegrationDefinition_InrD[OF ok] obtain m r where
    f: "formatIntegrationDefinition toJsonSchema props = Some (JObj m)" and
    p: "parse (z_object integrationDefinitionShape) [] (JObj m) = ({}, Some r)" and
    d: "d = \<lparr> name = field (own_props r) ''name'',
                     version = field (own_props r) ''version'',
                     icon = field (own_props r) ''icon'',
                     readme = field (own_props r) ''readme'',
                     title = field (own_props r) ''title'',
                     description = field (own_props r) ''description'',
                     configuration = field (own_props r) ''configuration'',
                     events = field (own_props r) ''events'',
                     actions = field (own_props r) ''actions'',
                     channels = field (own_props r) ''channels'',
                     states = field (own_props r) ''states'',
                     user = field (own_props r) ''user'',
                     secrets = field (own_props r) ''secrets'' \<rparr>"
    unfolding integrationDefinitionSchema_def by blast
  have gen: "field (own_props r) k = JUndefined"
    if "k |\<notin>| fmdom props" "(k, optional z) \<in> set integrationDefinitionShape" for k z
    using optional_field_undefined[OF p shape_distinct that(2) _ shape_plain[OF that(2)]]
      formatted_absent_field[OF f field_absent[OF that(1)]] by blast
  obtain zu where zu: "(''user'', optional zu) \<in> set integrationDefinitionShape"
    using shape_user_optional by blast
  show ?thesis
    unfolding d
    using gen[OF _ shape_mem(3)] gen[OF _ shape_mem(4)] gen[OF _ shape_mem(5)] gen[OF _ shape_mem(6)]
      gen[OF _ shape_mem(7)] gen[OF _ shape_mem(8)] gen[OF _ shape_mem(9)] gen[OF _ shape_mem(10)]
      gen[OF _ shape_mem(11)] gen[OF _ zu] gen[OF _ shape_mem(12)]
    by simp
qed

theorem omitted_sections_undefined_witness:
  "IntegrationDefinition example_toJsonSchema minimal_definition = Inr minimal_manifest \<and>
   ''title'' |\<notin>| fmdom minimal_definition \<and> title minimal_manifest = JUndefined \<and>
   ''description'' |\<notin>| fmdom minimal_definition \<and> description minimal_manifest = JUndefined \<and>
   ''icon'' |\<notin>| fmdom minimal_definition \<and> icon minimal_manifest = JUndefined \<and>
   ''readme'' |\<notin>| fmdom minimal_definition \<and> readme minimal_manifest = JUndefined \<and>
   ''configuration'' |\<notin>| fmdom minimal_definition \<and> configuration minimal_manifest = JUndefined \<and>
   ''events'' |\<notin>| fmdom minimal_definition \<and> events minimal_manifest = JUndefined \<and>
   ''actions'' |\<notin>| fmdom minimal_definition \<and> actions minimal_manifest = JUndefined \<and>
   ''channels'' |\<notin>| fmdom minimal_definition \<and> channels minimal_manifest = JUndefined \<and>
   ''states'' |\<notin>| fmdom minimal_definition \<and> states minimal_manifest = JUndefined \<and>
   ''user'' |\<notin>| fmdom minimal_definition \<and> user minimal_manifest = JUndefined \<and>
   ''secrets'' |\<notin>| fmdom minimal_definition \<and> secrets minimal_manifest = JUndefined"
proof -
  note t = omitted_sections_undefined[OF minimal_constructed]
  have o: "''title'' |\<notin>| fmdom minimal_definition"
    "''description'' |\<notin>| fmdom minimal_definition"
    "''icon'' |\<notin>| fmdom minimal_definition"
    "''readme'' |\<notin>| fmdom minimal_definition"
    "''configuration'' |\<notin>| fmdom minimal_definition"
    "''events'' |\<notin>| fmdom minimal_definition"
    "''actions'' |\<notin>| fmdom minimal_definition"
    "''channels'' |\<notin>| fmdom minimal_definition"
    "''states'' |\<notin>| fmdom minimal_definition"
    "''user'' |\<notin>| fmdom minimal_definition"
    "''secrets'' |\<notin>| fmdom minimal_definition"
    by code_simp+
  from t o minimal_constructed show ?thesis by blast
qed






section \<open>Behaviour of the version-bump command\<close>

text \<open>
  Claim C3, as amended. When the loop reaches a package that is not private and the
  user chooses \<open>none\<close>, the loop goes on with nothing changed but the record of the
  prompt: no version is replaced and no manifest is written. When the version of the
  package is a semantic version and the user chooses \<open>patch\<close>, \<open>minor\<close> or
  \<open>major\<close>, the loop goes on from the state in which the version of the package, in
  its manifest and in \<open>targetVersions\<close>, is the next release version: the chosen
  component incremented and the lower components reset to zero, except that a version
  with a prerelease tag only loses the tag where the components below the chosen one
  are already zero (for \<open>patch\<close>: always). No other manifest is touched. When the
  version is not a semantic version and the choice is not \<open>none\<close>, the command raises
  "Invalid version jump" and replaces nothing. At the end of the run, normal or not, the
  manifest and the entry of the package are still what that step made them, provided no
  later package that is not private has the same directory or the same name.
\<close>

theorem bump_next_version:
  assumes np: "\<not> pkgPrivate (content pkg)" and j: "answers (length (prompts s)) = jump"
  shows "(jump = none \<longrightarrow>
            bumpLoop answers (pkg # rest) s = bumpLoop answers rest (s\<lparr>prompts := prompts s @ [pkg]\<rparr>))
       \<and> (semver_parse (pkgVersion (content pkg)) = Some (SemVer ma mi pa prerelease build) \<longrightarrow>
            (jump = patch \<longrightarrow> bumpLoop answers (pkg # rest) s =
                bumpLoop answers rest (bumped s pkg
                  (semver_format ma mi (if prerelease = [] then pa + 1 else pa)))) \<and>
            (jump = minor \<longrightarrow> bumpLoop answers (pkg # rest) s =
                bumpLoop answers rest (bumped s pkg
                  (semver_format ma (if pa \<noteq> 0 \<or> prerelease = [] then mi + 1 else mi) 0))) \<and>
            (jump = major \<longrightarrow> bumpLoop answers (pkg # rest) s =
                bumpLoop answers rest (bumped s pkg
                  (semver_format
                     (if mi \<noteq> 0 \<or> pa \<noteq> 0 \<or> prerelease = [] then ma + 1 else ma) 0 0))))
       \<and> (semver_parse (pkgVersion (content pkg)) = None \<and> jump \<noteq> none \<longrightarrow>
            bumpLoop answers (pkg # rest) s =
              (Some (DepSynkyError (''Invalid version jump: '' @ show_jump jump)),
               s\<lparr>prompts := prompts s @ [pkg]\<rparr>))
       \<and> disk (bumped s pkg next_version) (path pkg) =
            map_option (\<lambda>manifest. manifest\<lparr>pkgVersion := next_version\<rparr>) (disk s (path pkg))
       \<and> targetVersions (bumped s pkg next_version) (pkgName (content pkg)) = Some next_version
       \<and> (\<forall>p. p \<noteq> path pkg \<longrightarrow> disk (bumped s pkg next_version) p = disk s p)
       \<and> (\<forall>e s'. bumpLoop answers rest (bumped s pkg next_version) = (e, s') \<and>
            (\<forall>q\<in>set rest. \<not> pkgPrivate (content q) \<longrightarrow>
               path q \<noteq> path pkg \<and> pkgName (content q) \<noteq> pkgName (content pkg)) \<longrightarrow>
            disk s' (path pkg) =
              map_option (\<lambda>manifest. manifest\<lparr>pkgVersion := next_version\<rparr>) (disk s (path pkg)) \<and>
            targetVersions s' (pkgName (content pkg)) = Some next_version)
       \<and> (\<forall>e s'. bumpLoop answers rest (s\<lparr>prompts := prompts s @ [pkg]\<rparr>) = (e, s') \<and>
            (\<forall>q\<in>set rest. \<not> pkgPrivate (content q) \<longrightarrow>
               path q \<noteq> path pkg \<and> pkgName (content q) \<noteq> pkgName (content pkg)) \<longrightarrow>
            disk s' (path pkg) = disk s (path pkg) \<and>
            targetVersions s' (pkgName (content pkg)) = targetVersions s (pkgName (content pkg)))"
proof (intro conjI)
  show "jump = none \<longrightarrow>
            bumpLoop answers (pkg # rest) s = bumpLoop answers rest (s\<lparr>prompts := prompts s @ [pkg]\<rparr>)"
    using np j by (simp add: Let_def)
next
  show "semver_parse (pkgVersion (content pkg)) = Some (SemVer ma mi pa prerelease build) \<longrightarrow>
            (jump = patch \<longrightarrow> bumpLoop answers (pkg # rest) s =
                bumpLoop answers rest (bumped s pkg
                  (semver_format ma mi (if prerelease = [] then pa + 1 else pa)))) \<and>
            (jump = minor \<longrightarrow> bumpLoop answers (pkg # rest) s =
                bumpLoop answers rest (bumped s pkg
                  (semver_format ma (if pa \<noteq> 0 \<or> prerelease = [] then mi + 1 else mi) 0))) \<and>
            (jump = major \<longrightarrow> bumpLoop answers (pkg # rest) s =
                bumpLoop answers rest (bumped s pkg
                  (semver_format
                     (if mi \<noteq> 0 \<or> pa \<noteq> 0 \<or> prerelease = [] then ma + 1 else ma) 0 0)))"
  proof (intro impI conjI)
    assume p: "semver_parse (pkgVersion (content pkg)) = Some (SemVer ma mi pa prerelease build)"
    note r = semver_inc_parsed[OF p]
    show "bumpLoop answers (pkg # rest) s =
            bumpLoop answers rest (bumped s pkg
              (semver_format ma mi (if prerelease = [] then pa + 1 else pa)))"
      if "jump = patch"
      using np j that r(1) by (simp add: Let_def bumped_def)
    show "bumpLoop answers (pkg # rest) s =
            bumpLoop answers rest (bumped s pkg
              (semver_format ma (if pa \<noteq> 0 \<or> prerelease = [] then mi + 1 else mi) 0))"
      if "jump = minor"
      using np j that r(2) by (simp add: Let_def bumped_def)
    show "bumpLoop answers (pkg # rest) s =
            bumpLoop answers rest (bumped s pkg
              (semver_format
                 (if mi \<noteq> 0 \<or> pa \<noteq> 0 \<or> prerelease = [] then ma + 1 else ma) 0 0))"
      if "jump = major"
      using np j that r(3) by (simp add: Let_def bumped_def)
  qed
next
  show "semver_parse (pkgVersion (content pkg)) = None \<and> jump \<noteq> none \<longrightarrow>
            bumpLoop answers (pkg # rest) s =
              (Some (DepSynkyError (''Invalid version jump: '' @ show_jump jump)),
               s\<lparr>prompts := prompts s @ [pkg]\<rparr>)"
    using np j by (simp add: Let_def semver_inc_unparsed)
next
  show "disk (bumped s pkg next_version) (path pkg) =
            map_option (\<lambda>manifest. manifest\<lparr>pkgVersion := next_version\<rparr>) (disk s (path pkg))"
    by (simp add: bumped_def pkgjson_update_same)
next
  show "targetVersions (bumped s pkg next_version) (pkgName (content pkg)) = Some next_version"
    by (simp add: bumped_def)
next
  show "\<forall>p. p \<noteq> path pkg \<longrightarrow> disk (bumped s pkg next_version) p = disk s p"
    by (simp add: bumped_def pkgjson_update_other)
next
  show "\<forall>e s'. bumpLoop answers rest (bumped s pkg next_version) = (e, s') \<and>
            (\<forall>q\<in>set rest. \<not> pkgPrivate (content q) \<longrightarrow>
               path q \<noteq> path pkg \<and> pkgName (content q) \<noteq> pkgName (content pkg)) \<longrightarrow>
            disk s' (path pkg) =
              map_option (\<lambda>manifest. manifest\<lparr>pkgVersion := next_version\<rparr>) (disk s (path pkg)) \<and>
            targetVersions s' (pkgName (content pkg)) = Some next_version"
  proof (intro allI impI)
    fix e s'
    assume a: "bumpLoop answers rest (bumped s pkg next_version) = (e, s') \<and>
            (\<forall>q\<in>set rest. \<not> pkgPrivate (content q) \<longrightarrow>
               path q \<noteq> path pkg \<and> pkgName (content q) \<noteq> pkgName (content pkg))"
    from bumpLoop_rest_frame[OF conjunct1[OF a] conjunct2[OF a]]
    show "disk s' (path pkg) =
              map_option (\<lambda>manifest. manifest\<lparr>pkgVersion := next_version\<rparr>) (disk s (path pkg)) \<and>
            targetVersions s' (pkgName (content pkg)) = Some next_version"
      by (simp add: bumped_def pkgjson_update_same)
  qed
next
  show "\<forall>e s'. bumpLoop answers rest (s\<lparr>prompts := prompts s @ [pkg]\<rparr>) = (e, s') \<and>
            (\<forall>q\<in>set rest. \<not> pkgPrivate (content q) \<longrightarrow>
               path q \<noteq> path pkg \<and> pkgName (content q) \<noteq> pkgName (content pkg)) \<longrightarrow>
            disk s' (path pkg) = disk s (path pkg) \<and>
            targetVersions s' (pkgName (content pkg)) = targetVersions s (pkgName (content pkg))"
  proof (intro allI impI)
    fix e s'
    assume a: "bumpLoop answers rest (s\<lparr>prompts := prompts s @ [pkg]\<rparr>) = (e, s') \<and>
            (\<forall>q\<in>set rest. \<not> pkgPrivate (content q) \<longrightarrow>
               path q \<noteq> path pkg \<and> pkgName (content q) \<noteq> pkgName (content pkg))"
    from bumpLoop_rest_frame[OF conjunct1[OF a] conjunct2[OF a]]
    show "disk s' (path pkg) = disk s (path pkg) \<and>
            targetVersions s' (pkgName (content pkg)) = targetVersions s (pkgName (content pkg))"
      by simp
  qed
qed

theorem bump_next_version_witness:
  "\<not> pkgPrivate (content pkg_a) \<and>
   semver_parse (pkgVersion (content pkg_a)) = Some (SemVer 1 2 3 [] []) \<and>
   bumpLoop (\<lambda>i. patch) [pkg_a, pkg_p] (example_state [pkg_a, pkg_p]) =
     bumpLoop (\<lambda>i. patch) [pkg_p] (bumped (example_state [pkg_a, pkg_p]) pkg_a ''1.2.4'') \<and>
   map_option pkgVersion
     (disk (snd (bumpLoop (\<lambda>i. patch) [pkg_a, pkg_p] (example_state [pkg_a, pkg_p]))) (path pkg_a))
     = Some ''1.2.4'' \<and>
   targetVersions (snd (bumpLoop (\<lambda>i. patch) [pkg_a, pkg_p] (example_state [pkg_a, pkg_p])))
     (pkgName (content pkg_a)) = Some ''1.2.4'' \<and>
   \<not> pkgPrivate (content pkg_b) \<and>
   semver_parse (pkgVersion (content pkg_b)) = Some (SemVer 1 2 3 [''beta'', ''1''] []) \<and>
   bumpLoop (\<lambda>i. minor) [pkg_b] (example_state [pkg_b]) =
     bumpLoop (\<lambda>i. minor) [] (bumped (example_state [pkg_b]) pkg_b ''1.3.0'') \<and>
   bumpLoop (\<lambda>i. major) [pkg_b] (example_state [pkg_b]) =
     bumpLoop (\<lambda>i. major) [] (bumped (example_state [pkg_b]) pkg_b ''2.0.0'') \<and>
   bumpLoop (\<lambda>i. patch) [pkg_b] (example_state [pkg_b]) =
     bumpLoop (\<lambda>i. patch) [] (bumped (example_state [pkg_b]) pkg_b ''1.2.3'') \<and>
   \<not> pkgPrivate (content pkg_c) \<and>
   semver_parse (pkgVersion (content pkg_c)) = None \<and>
   bumpLoop (\<lambda>i. patch) [pkg_c] (example_state [pkg_c]) =
     (Some (DepSynkyError (''Invalid version jump: '' @ show_jump patch)),
      (example_state [pkg_c])\<lparr>prompts := prompts (example_state [pkg_c]) @ [pkg_c]\<rparr>) \<and>
   bumpLoop (\<lambda>i. none) [pkg_a, pkg_p] (example_state [pkg_a, pkg_p]) =
     bumpLoop (\<lambda>i. none) [pkg_p]
       ((example_state [pkg_a, pkg_p])\<lparr>prompts := prompts (example_state [pkg_a, pkg_p]) @ [pkg_a]\<rparr>) \<and>
   disk (snd (bumpLoop (\<lambda>i. none) [pkg_a, pkg_p] (example_state [pkg_a, pkg_p]))) (path pkg_a) =
     disk (example_state [pkg_a, pkg_p]) (path pkg_a) \<and>
   targetVersions (snd (bumpLoop (\<lambda>i. none) [pkg_a, pkg_p] (example_state [pkg_a, pkg_p])))
     (pkgName (content pkg_a)) = targetVersions (example_state [pkg_a, pkg_p]) (pkgName (content pkg_a))"
proof -
  let ?s = "example_state [pkg_a, pkg_p]"
  let ?r = "bumpLoop (\<lambda>i. patch) [pkg_p] (bumped ?s pkg_a ''1.2.4'')"
  have np: "\<not> pkgPrivate (content pkg_a)" by code_simp
  have j: "(\<lambda>i. patch) (length (prompts ?s)) = patch" by simp
  have p: "semver_parse (pkgVersion (content pkg_a)) = Some (SemVer 1 2 3 [] [])" by code_simp
  have f: "semver_format 1 2 (if ([]::string list) = [] then 3 + 1 else 3) = ''1.2.4''" by code_simp
  have d: "disk ?s (path pkg_a) = Some (content pkg_a)" by code_simp
  have o: "\<forall>q\<in>set [pkg_p]. \<not> pkgPrivate (content q) \<longrightarrow>
             path q \<noteq> path pkg_a \<and> pkgName (content q) \<noteq> pkgName (content pkg_a)"
    by code_simp
  have r: "?r = (fst ?r, snd ?r)" by simp
  note t = bump_next_version[OF np j, where rest = "[pkg_p]" and ma = 1 and mi = 2 and pa = 3
      and prerelease = "[]" and build = "[]" and next_version = "''1.2.4''"]
  from t p have 1: "bumpLoop (\<lambda>i. patch) [pkg_a, pkg_p] ?s = ?r"
    unfolding f by blast
  from t r o have 2: "disk (snd ?r) (path pkg_a) =
      map_option (\<lambda>manifest. manifest\<lparr>pkgVersion := ''1.2.4''\<rparr>) (disk ?s (path pkg_a)) \<and>
      targetVersions (snd ?r) (pkgName (content pkg_a)) = Some ''1.2.4''"
    by blast
  from 2 have 3: "map_option pkgVersion (disk (snd ?r) (path pkg_a)) = Some ''1.2.4''"
    unfolding d by simp
  let ?b = "example_state [pkg_b]"
  have npb: "\<not> pkgPrivate (content pkg_b)" by code_simp
  have pb: "semver_parse (pkgVersion (content pkg_b)) = Some (SemVer 1 2 3 [''beta'', ''1''] [])"
    by code_simp
  have fb: "semver_format 1 (if (3::nat) \<noteq> 0 \<or> [''beta'', ''1''] = [] then 2 + 1 else 2) 0 = ''1.3.0''"
    "semver_format (if (2::nat) \<noteq> 0 \<or> (3::nat) \<noteq> 0 \<or> [''beta'', ''1''] = [] then 1 + 1 else 1) 0 0 = ''2.0.0''"
    "semver_format 1 2 (if [''beta'', ''1''] = [] then 3 + 1 else 3) = ''1.2.3''"
    by code_simp+
  note tb = bump_next_version[OF npb, where rest = "[]" and ma = 1 and mi = 2 and pa = 3
      and prerelease = "[''beta'', ''1'']" and build = "[]" and s = ?b]
  from tb[where answers = "\<lambda>i. minor" and jump = minor] pb
  have 4: "bumpLoop (\<lambda>i. minor) [pkg_b] ?b = bumpLoop (\<lambda>i. minor) [] (bumped ?b pkg_b ''1.3.0'')"
    unfolding fb by blast
  from tb[where answers = "\<lambda>i. major" and jump = major] pb
  have 5: "bumpLoop (\<lambda>i. major) [pkg_b] ?b = bumpLoop (\<lambda>i. major) [] (bumped ?b pkg_b ''2.0.0'')"
    unfolding fb by blast
  from tb[where answers = "\<lambda>i. patch" and jump = patch] pb
  have 6: "bumpLoop (\<lambda>i. patch) [pkg_b] ?b = bumpLoop (\<lambda>i. patch) [] (bumped ?b pkg_b ''1.2.3'')"
    unfolding fb by blast
  let ?c = "example_state [pkg_c]"
  have npc: "\<not> pkgPrivate (content pkg_c)" by code_simp
  have pc: "semver_parse (pkgVersion (content pkg_c)) = None" by code_simp
  have nn: "patch \<noteq> none" by simp
  from bump_next_version[OF npc, where rest = "[]" and s = ?c and answers = "\<lambda>i. patch" and jump = patch]
    pc nn
  have 7: "bumpLoop (\<lambda>i. patch) [pkg_c] ?c =
     (Some (DepSynkyError (''Invalid version jump: '' @ show_jump patch)),
      ?c\<lparr>prompts := prompts ?c @ [pkg_c]\<rparr>)" by blast
  let ?n = "bumpLoop (\<lambda>i. none) [pkg_p] (?s\<lparr>prompts := prompts ?s @ [pkg_a]\<rparr>)"
  have jn: "(\<lambda>i. none) (length (prompts ?s)) = none" by simp
  have rn: "?n = (fst ?n, snd ?n)" by simp
  note tn = bump_next_version[OF np jn, where rest = "[pkg_p]"]
  from tn have 8: "bumpLoop (\<lambda>i. none) [pkg_a, pkg_p] ?s = ?n" by blast
  from tn rn o have 9: "disk (snd ?n) (path pkg_a) = disk ?s (path pkg_a) \<and>
      targetVersions (snd ?n) (pkgName (content pkg_a)) = targetVersions ?s (pkgName (content pkg_a))"
    by blast
  from np p 1 2 3 npb pb 4 5 6 npc pc 7 8 9 show ?thesis by simp
qed

text \<open>
  The claim as first stated, for every package and every jump, fails on a prerelease
  version whose components below the chosen one are zero, where the tag is dropped
  and nothing is incremented (\<open>patch\<close> on \<open>1.2.3-beta.1\<close>, \<open>minor\<close> on
  \<open>1.2.0-beta.1\<close>, \<open>major\<close> on \<open>2.0.0-rc.1\<close>), and on a version that is not a
  semantic version, where the command raises and replaces nothing.
\<close>

theorem bump_not_always_increment_counterexample:
  "\<not> pkgPrivate (content pkg_b) \<and>
   map_option pkgVersion (disk (example_state [pkg_b]) ''packages/b'') = Some ''1.2.3-beta.1'' \<and>
   fst (bumpLoop (\<lambda>i. patch) [pkg_b] (example_state [pkg_b])) = None \<and>
   map_option pkgVersion (disk (snd (bumpLoop (\<lambda>i. patch) [pkg_b] (example_state [pkg_b]))) ''packages/b'')
     = Some ''1.2.3'' \<and>
   \<not> pkgPrivate (content pkg_c) \<and>
   fst (bumpLoop (\<lambda>i. patch) [pkg_c] (example_state [pkg_c]))
     = Some (DepSynkyError ''Invalid version jump: patch'') \<and>
   map_option pkgVersion (disk (snd (bumpLoop (\<lambda>i. patch) [pkg_c] (example_state [pkg_c]))) ''packages/c'')
     = Some ''not-a-version'' \<and>
   \<not> pkgPrivate (content pkg_d) \<and>
   map_option pkgVersion (disk (example_state [pkg_d]) ''packages/d'') = Some ''1.2.0-beta.1'' \<and>
   map_option pkgVersion (disk (snd (bumpLoop (\<lambda>i. minor) [pkg_d] (example_state [pkg_d]))) ''packages/d'')
     = Some ''1.2.0'' \<and>
   \<not> pkgPrivate (content pkg_e) \<and>
   map_option pkgVersion (disk (example_state [pkg_e]) ''packages/e'') = Some ''2.0.0-rc.1'' \<and>
   map_option pkgVersion (disk (snd (bumpLoop (\<lambda>i. major) [pkg_e] (example_state [pkg_e]))) ''packages/e'')
     = Some ''2.0.0''"
  by code_simp

text \<open>
  Claim C6, as amended. The command is not all-or-nothing. When it raises at a package,
  after the packages before it were processed without an exception, it stops in the
  state those packages left, to which only the record of the last prompt is added:
  every manifest rewritten so far stays rewritten, and nothing is written for the
  failing package or for the packages after it.
\<close>

theorem bump_error_keeps_earlier_writes:
  assumes before: "bumpLoop answers before s = (None, s1)"
      and np: "\<not> pkgPrivate (content pkg)"
      and j: "answers (length (prompts s1)) = jump"
      and nn: "jump \<noteq> none"
      and bad: "semver_inc (pkgVersion (content pkg)) jump = None"
  shows "bumpLoop answers (before @ pkg # after) s =
           (Some (DepSynkyError (''Invalid version jump: '' @ show_jump jump)),
            s1\<lparr>prompts := prompts s1 @ [pkg]\<rparr>)"
  using assms by (simp add: bumpLoop_append Let_def)

theorem bump_error_keeps_earlier_writes_witness:
  "bumpLoop (\<lambda>i. patch) [pkg_a] (example_state [pkg_a, pkg_c])
     = (None, bumped (example_state [pkg_a, pkg_c]) pkg_a ''1.2.4'') \<and>
   \<not> pkgPrivate (content pkg_c) \<and>
   patch \<noteq> none \<and>
   semver_inc (pkgVersion (content pkg_c)) patch = None \<and>
   bumpLoop (\<lambda>i. patch) ([pkg_a] @ pkg_c # [pkg_b]) (example_state [pkg_a, pkg_c]) =
     (Some (DepSynkyError (''Invalid version jump: '' @ show_jump patch)),
      (bumped (example_state [pkg_a, pkg_c]) pkg_a ''1.2.4'')
        \<lparr>prompts := prompts (bumped (example_state [pkg_a, pkg_c]) pkg_a ''1.2.4'') @ [pkg_c]\<rparr>)"
proof -
  have np_a: "\<not> pkgPrivate (content pkg_a)" by code_simp
  have inc_a: "semver_inc (pkgVersion (content pkg_a)) patch = Some ''1.2.4''" by code_simp
  have b: "bumpLoop (\<lambda>i. patch) [pkg_a] (example_state [pkg_a, pkg_c])
     = (None, bumped (example_state [pkg_a, pkg_c]) pkg_a ''1.2.4'')"
    using np_a inc_a by (simp add: Let_def bumped_def)
  have np: "\<not> pkgPrivate (content pkg_c)" by code_simp
  have nn: "patch \<noteq> none" by simp
  have bad: "semver_inc (pkgVersion (content pkg_c)) patch = None" by code_simp
  from bump_error_keeps_earlier_writes[OF b np refl nn bad, of "[pkg_b]"] b np nn bad
  show ?thesis by blast
qed

text \<open>A run that raises at its second package and leaves the first one rewritten.\<close>

theorem bump_partial_writes_counterexample:
  "map_option pkgVersion (disk (example_state [pkg_a, pkg_c]) ''packages/a'') = Some ''1.2.3'' \<and>
   fst (bumpLoop (\<lambda>i. patch) [pkg_a, pkg_c] (example_state [pkg_a, pkg_c]))
     = Some (DepSynkyError ''Invalid version jump: patch'') \<and>
   map_option pkgVersion
     (disk (snd (bumpLoop (\<lambda>i. patch) [pkg_a, pkg_c] (example_state [pkg_a, pkg_c]))) ''packages/a'')
     = Some ''1.2.4''"
  by code_simp




end
